theory Spec2Isabelle
  imports Complex_Main
begin

section \<open>The Python operations used by the script\<close>

text \<open>
  Python floats are modelled as real numbers: rounding, overflow and NaN are outside
  the model, and so is underflow except in the power of the path loss, where it decides
  whether a division raises. Everything that raises in Python is a branch of the model: true
  division by zero raises \<open>ZeroDivisionError\<close> (for floats as well as for ints),
  \<open>math.sqrt\<close> of a negative number and \<open>math.log2\<close> of a non-positive number
  raise \<open>ValueError\<close>, and \<open>.iloc[0]\<close> on an empty selection raises
  \<open>IndexError\<close>.
\<close>

datatype error = ZeroDivisionError | ValueError | IndexError

definition ebind :: "error + 'a \<Rightarrow> ('a \<Rightarrow> error + 'b) \<Rightarrow> error + 'b" where
  "ebind m f = (case m of Inl e \<Rightarrow> Inl e | Inr v \<Rightarrow> f v)"

definition py_div :: "real \<Rightarrow> real \<Rightarrow> error + real" where
  "py_div a b = (if b = 0 then Inl ZeroDivisionError else Inr (a / b))"

definition math_sqrt :: "real \<Rightarrow> error + real" where
  "math_sqrt x = (if x < 0 then Inl ValueError else Inr (sqrt x))"

definition math_log2 :: "real \<Rightarrow> error + real" where
  "math_log2 x = (if x \<le> 0 then Inl ValueError else Inr (log 2 x))"

definition math_radians :: "real \<Rightarrow> real" where
  "math_radians x = x * pi / 180"

definition math_atan2 :: "real \<Rightarrow> real \<Rightarrow> real" where
  "math_atan2 y x =
     (if 0 < x then arctan (y / x)
      else if x < 0 then (if 0 \<le> y then arctan (y / x) + pi else arctan (y / x) - pi)
      else if 0 < y then pi / 2
      else if y < 0 then - (pi / 2)
      else 0)"

text \<open>A \<open>for\<close> loop over a list whose body may raise: the first exception ends the loop.\<close>

fun for_each :: "('a \<Rightarrow> 's \<Rightarrow> error + 's) \<Rightarrow> 'a list \<Rightarrow> 's \<Rightarrow> error + 's" where
  "for_each body [] s = Inr s"
| "for_each body (x # xs) s =
     (case body x s of Inl e \<Rightarrow> Inl e | Inr s' \<Rightarrow> for_each body xs s')"

section \<open>Constants\<close>

definition PATH_EXP :: nat where "PATH_EXP = 3"
definition EARTH_R :: real where "EARTH_R = 6371000"
definition TEMP_K :: real where "TEMP_K = 290"
definition BOLTZ :: real where "BOLTZ = 138064852 / 10 ^ 31"
definition C_LIGHT :: real where "C_LIGHT = 299792458"

definition BS_RX_GAIN_dBi :: real where "BS_RX_GAIN_dBi = 14"
definition UE_TX_GAIN_dBi :: real where "UE_TX_GAIN_dBi = 0"
definition PARENT_RX_GAIN_dBi :: real where "PARENT_RX_GAIN_dBi = 6"
definition BS_RX_GAIN :: real where "BS_RX_GAIN = 10 powr (BS_RX_GAIN_dBi / 10)"
definition UE_TX_GAIN :: real where "UE_TX_GAIN = 10 powr (UE_TX_GAIN_dBi / 10)"
definition PARENT_RX_GAIN :: real where "PARENT_RX_GAIN = 10 powr (PARENT_RX_GAIN_dBi / 10)"

definition MIMO_STREAMS :: real where "MIMO_STREAMS = 4"

record band =
  band_fc :: real
  band_bw :: real
  band_eirp_dbm :: real

text \<open>The dict \<open>NR_BANDS\<close>; a Python dict iterates in insertion order.\<close>

definition NR_BANDS :: "(string \<times> band) list" where
  "NR_BANDS =
     [(''n77'',  \<lparr>band_fc = 3700000000,  band_bw = 200000000,  band_eirp_dbm = 30\<rparr>),
      (''n260'', \<lparr>band_fc = 39000000000, band_bw = 1600000000, band_eirp_dbm = 30\<rparr>),
      (''n261'', \<lparr>band_fc = 28000000000, band_bw = 1600000000, band_eirp_dbm = 30\<rparr>)]"

section \<open>The topology table\<close>

text \<open>
  One row of the CSV file. An empty \<open>Parent ID\<close> cell (NaN for pandas) is \<open>None\<close>.
\<close>

record node =
  Name :: string
  ID :: int
  Latitude :: real
  Longitude :: real
  Parent_ID :: "int option"

text \<open>\<open>df[df["ID"] == pid].iloc[0]\<close>: the first row with that identifier.\<close>

definition lookup_id :: "node list \<Rightarrow> int \<Rightarrow> error + node" where
  "lookup_id df pid =
     (case filter (\<lambda>r. ID r = pid) df of [] \<Rightarrow> Inl IndexError | r # _ \<Rightarrow> Inr r)"

text \<open>\<open>df[df["Name"] == "BaseStation"].iloc[0]\<close> and \<open>df[df["Name"] != "BaseStation"]\<close>.\<close>

definition load_bs :: "node list \<Rightarrow> error + node" where
  "load_bs df =
     (case filter (\<lambda>r. Name r = ''BaseStation'') df of [] \<Rightarrow> Inl IndexError | r # _ \<Rightarrow> Inr r)"

definition load_ues :: "node list \<Rightarrow> node list" where
  "load_ues df = filter (\<lambda>r. Name r \<noteq> ''BaseStation'') df"

section \<open>Helper functions\<close>

definition haversine_m :: "node \<Rightarrow> real \<Rightarrow> real \<Rightarrow> error + real" where
  "haversine_m row bs_lat bs_lon =
     (let phi1 = math_radians (Latitude row);
          phi2 = math_radians bs_lat;
          dphi = math_radians (bs_lat - Latitude row);
          dlmb = math_radians (bs_lon - Longitude row);
          a = (sin (dphi / 2)) ^ 2 + cos phi1 * cos phi2 * (sin (dlmb / 2)) ^ 2
      in ebind (math_sqrt a) (\<lambda>sa.
         ebind (math_sqrt (1 - a)) (\<lambda>sb.
         Inr (EARTH_R * 2 * math_atan2 sa sb))))"

definition dbm_to_w :: "real \<Rightarrow> real" where
  "dbm_to_w dbm = 10 powr ((dbm - 30) / 10)"

text \<open>
  \<open>np.random.normal(loc, scale)\<close> is \<open>loc + scale * g\<close> for a standard normal draw
  \<open>g\<close>, which can be any real number. The generator is modelled by the sequence of its
  standard normal draws; \<open>noise\<close> takes the draw it consumes as its second argument.
\<close>

definition noise :: "real \<Rightarrow> real \<Rightarrow> real" where
  "noise bw g = BOLTZ * TEMP_K * bw + (1 / 10 ^ 18) * g"

text \<open>
  One effect of float arithmetic is kept, because it decides whether a division raises:
  the power \<open>d ** PATH_EXP\<close> of the path loss underflows. A double whose exact value
  has a magnitude of at most \<open>2^-1075\<close>, half the smallest positive double, is
  \<open>0.0\<close>; Python's float power returns that zero and does not raise. For the carrier
  frequencies of \<open>NR_BANDS\<close> the wavelength is below 1 m, so the quotient by its square
  is not smaller than the power, and this is the only way in which the path loss of a
  non-zero distance is \<open>0.0\<close>.
\<close>

definition float_pow :: "real \<Rightarrow> nat \<Rightarrow> real" where
  "float_pow x n = (if \<bar>x ^ n\<bar> \<le> 1 / 2 ^ 1075 then 0 else x ^ n)"

definition rayleigh_path_loss :: "real \<Rightarrow> real \<Rightarrow> error + real" where
  "rayleigh_path_loss fc d =
     ebind (py_div C_LIGHT fc) (\<lambda>lambda_c.
     py_div (float_pow d PATH_EXP) (lambda_c ^ 2))"

definition snr_rayleigh ::
  "real \<Rightarrow> real \<Rightarrow> real \<Rightarrow> real \<Rightarrow> real \<Rightarrow> real \<Rightarrow> real \<Rightarrow> error + real" where
  "snr_rayleigh pt d fc g_tx g_rx bw g =
     (let d = (if d = 0 then 1 / 10 else d) in
      ebind (rayleigh_path_loss fc d) (\<lambda>path_loss.
      ebind (py_div (pt * g_tx * g_rx) path_loss) (\<lambda>prx.
      py_div prx \<bar>noise bw g\<bar>)))"

definition capacity :: "real \<Rightarrow> real \<Rightarrow> error + real" where
  "capacity bw snr_lin = ebind (math_log2 (1 + snr_lin)) (\<lambda>l. Inr (bw * l))"

text \<open>
  \<open>fmt_power\<close> chooses the unit; the value is then printed with one decimal. The
  printing of numbers as decimal strings is not modelled: a formatted cell is the
  number that is printed.
\<close>

datatype power_cell = mW real | W real

definition fmt_power :: "real \<Rightarrow> power_cell" where
  "fmt_power p = (if p < 1000 then mW p else W (p / 1000))"

section \<open>Simulation\<close>

text \<open>
  The accumulators of one band, and \<open>draws\<close>, the number of normal draws the global
  generator has produced so far (the next call of \<open>noise\<close> gets draw number
  \<open>draws\<close> of the sequence \<open>z\<close>).
\<close>

record sim_state =
  power_baseline :: real
  power_d2d :: real
  rate_baseline :: real
  rate_d2d :: real
  parents :: "int set"
  draws :: nat

record result_row =
  Band :: string
  Frequency_GHz :: real
  Baseline_Power :: power_cell
  D2D_Power :: power_cell
  Power_Savings :: real
  Baseline_Rate :: real
  D2D_Rate :: real
  Sum_Rate_Gain :: real

text \<open>Body of the first loop (baseline pass).\<close>

definition baseline_step ::
  "(nat \<Rightarrow> real) \<Rightarrow> node \<Rightarrow> real \<Rightarrow> real \<Rightarrow> real \<Rightarrow> node \<Rightarrow> sim_state \<Rightarrow> error + sim_state" where
  "baseline_step z bs fc bw pt ue s =
     ebind (haversine_m ue (Latitude bs) (Longitude bs)) (\<lambda>d_bs.
     ebind (snr_rayleigh pt d_bs fc UE_TX_GAIN BS_RX_GAIN bw (z (draws s))) (\<lambda>snr.
     let snr_lin = max snr (1 / 100) in
     ebind (capacity bw snr_lin) (\<lambda>c.
     Inr (s\<lparr>rate_baseline := rate_baseline s + MIMO_STREAMS * c,
            power_baseline := power_baseline s + (d_bs / 1000) ^ PATH_EXP,
            draws := Suc (draws s)\<rparr>))))"

text \<open>Body of the second loop (D2D pass).\<close>

definition d2d_step ::
  "(nat \<Rightarrow> real) \<Rightarrow> node list \<Rightarrow> node \<Rightarrow> real \<Rightarrow> real \<Rightarrow> real \<Rightarrow> node \<Rightarrow> sim_state
     \<Rightarrow> error + sim_state" where
  "d2d_step z df bs fc bw pt ue s =
     ebind (case Parent_ID ue of None \<Rightarrow> Inr bs | Some p \<Rightarrow> lookup_id df p) (\<lambda>parent.
     ebind (haversine_m ue (Latitude parent) (Longitude parent)) (\<lambda>d_up.
     let g_rx = (if ID parent = ID bs then BS_RX_GAIN else PARENT_RX_GAIN) in
     ebind (snr_rayleigh pt d_up fc UE_TX_GAIN g_rx bw (z (draws s))) (\<lambda>snr.
     let snr_lin_up = max snr (1 / 100) in
     ebind (capacity bw snr_lin_up) (\<lambda>c.
     let s' = s\<lparr>rate_d2d := rate_d2d s + MIMO_STREAMS * c,
                power_d2d := power_d2d s + (d_up / 1000) ^ PATH_EXP,
                draws := Suc (draws s)\<rparr>
     in Inr (if ID parent \<noteq> ID bs then s'\<lparr>parents := insert (ID parent) (parents s')\<rparr>
             else s')))))"

text \<open>Body of the third loop (one relay-to-base-station hop).\<close>

definition relay_step ::
  "(nat \<Rightarrow> real) \<Rightarrow> node list \<Rightarrow> node \<Rightarrow> real \<Rightarrow> real \<Rightarrow> real \<Rightarrow> int \<Rightarrow> sim_state
     \<Rightarrow> error + sim_state" where
  "relay_step z df bs fc bw pt pid s =
     ebind (lookup_id df pid) (\<lambda>parent.
     ebind (haversine_m parent (Latitude bs) (Longitude bs)) (\<lambda>d_pb.
     ebind (snr_rayleigh pt d_pb fc UE_TX_GAIN BS_RX_GAIN bw (z (draws s))) (\<lambda>snr.
     let snr_lin_pb = max snr (1 / 100) in
     ebind (capacity bw snr_lin_pb) (\<lambda>c.
     Inr (s\<lparr>rate_d2d := rate_d2d s + MIMO_STREAMS * c,
            power_d2d := power_d2d s + (d_pb / 1000) ^ PATH_EXP,
            draws := Suc (draws s)\<rparr>)))))"

text \<open>
  The three loops of one band. The accumulators start at zero and \<open>parents\<close> empty;
  the generator goes on from draw \<open>k\<close>. Python does not fix the order in which
  \<open>for pid in parents\<close> visits a set: \<open>iter\<close> is the enumeration the runtime uses.
\<close>

definition accumulate_band ::
  "(int set \<Rightarrow> int list) \<Rightarrow> (nat \<Rightarrow> real) \<Rightarrow> node list \<Rightarrow> node \<Rightarrow> node list \<Rightarrow> band \<Rightarrow> nat
     \<Rightarrow> error + sim_state" where
  "accumulate_band iter z df bs ues bnd k =
     (let fc = band_fc bnd; bw = band_bw bnd; eirp_dbm = band_eirp_dbm bnd;
          pt = dbm_to_w eirp_dbm;
          s0 = \<lparr>power_baseline = 0, power_d2d = 0, rate_baseline = 0, rate_d2d = 0,
                parents = {}, draws = k\<rparr>
      in ebind (for_each (baseline_step z bs fc bw pt) ues s0) (\<lambda>s1.
         ebind (for_each (d2d_step z df bs fc bw pt) ues s1) (\<lambda>s2.
         for_each (relay_step z df bs fc bw pt) (iter (parents s2)) s2)))"

text \<open>The percentages and the row appended to \<open>results\<close>.\<close>

definition band_row :: "string \<Rightarrow> band \<Rightarrow> sim_state \<Rightarrow> error + result_row" where
  "band_row tag bnd s =
     ebind (py_div (power_d2d s) (power_baseline s)) (\<lambda>q.
     let power_saving = (1 - q) * 100 in
     ebind (py_div (rate_d2d s - rate_baseline s) (rate_baseline s)) (\<lambda>r.
     let rate_gain = r * 100 in
     Inr \<lparr>Band = tag,
          Frequency_GHz = band_fc bnd / 10 ^ 9,
          Baseline_Power = fmt_power (power_baseline s),
          D2D_Power = fmt_power (power_d2d s),
          Power_Savings = power_saving,
          Baseline_Rate = rate_baseline s / 10 ^ 9,
          D2D_Rate = rate_d2d s / 10 ^ 9,
          Sum_Rate_Gain = rate_gain\<rparr>))"

definition simulate_band ::
  "(int set \<Rightarrow> int list) \<Rightarrow> (nat \<Rightarrow> real) \<Rightarrow> node list \<Rightarrow> node \<Rightarrow> node list \<Rightarrow> string \<Rightarrow> band
     \<Rightarrow> nat \<Rightarrow> error + (result_row \<times> nat)" where
  "simulate_band iter z df bs ues tag bnd k =
     ebind (accumulate_band iter z df bs ues bnd k) (\<lambda>s.
     ebind (band_row tag bnd s) (\<lambda>row. Inr (row, draws s)))"

text \<open>The loop over the bands, appending one row per band.\<close>

fun simulate_bands ::
  "(int set \<Rightarrow> int list) \<Rightarrow> (nat \<Rightarrow> real) \<Rightarrow> node list \<Rightarrow> node \<Rightarrow> node list
     \<Rightarrow> (string \<times> band) list \<Rightarrow> result_row list \<Rightarrow> nat \<Rightarrow> error + result_row list" where
  "simulate_bands iter z df bs ues [] results k = Inr results"
| "simulate_bands iter z df bs ues ((tag, bnd) # rest) results k =
     (case simulate_band iter z df bs ues tag bnd k of
        Inl e \<Rightarrow> Inl e
      | Inr (row, k') \<Rightarrow> simulate_bands iter z df bs ues rest (results @ [row]) k')"

text \<open>The whole script: the rows of \<open>df_final\<close>, or the exception that ends the run.\<close>

definition simulate ::
  "(int set \<Rightarrow> int list) \<Rightarrow> (nat \<Rightarrow> real) \<Rightarrow> node list \<Rightarrow> error + result_row list" where
  "simulate iter z df =
     ebind (load_bs df) (\<lambda>bs.
     let ues = load_ues df in
     simulate_bands iter z df bs ues NR_BANDS [] 0)"

section \<open>Closed forms of the helper functions\<close>

text \<open>
  The values the helper functions return when they do not raise; the lemmas of the next
  sections show that the functions of the script return exactly these values.
\<close>

definition hav_a :: "node \<Rightarrow> real \<Rightarrow> real \<Rightarrow> real" where
  "hav_a row bs_lat bs_lon =
     (sin (math_radians (bs_lat - Latitude row) / 2)) ^ 2
       + cos (math_radians (Latitude row)) * cos (math_radians bs_lat)
         * (sin (math_radians (bs_lon - Longitude row) / 2)) ^ 2"

definition dist_m :: "node \<Rightarrow> real \<Rightarrow> real \<Rightarrow> real" where
  "dist_m row bs_lat bs_lon =
     EARTH_R * 2 * math_atan2 (sqrt (hav_a row bs_lat bs_lon)) (sqrt (1 - hav_a row bs_lat bs_lon))"

text \<open>
  \<open>cube_underflows d\<close>: the distance that \<open>snr_rayleigh\<close> computes with (0.1 for
  \<open>d = 0\<close>, else \<open>d\<close>) has a cube that underflows to \<open>0.0\<close>.
\<close>

definition cube_underflows :: "real \<Rightarrow> bool" where
  "cube_underflows d = (float_pow (if d = 0 then 1 / 10 else d) PATH_EXP = 0)"

definition snr_val :: "real \<Rightarrow> real \<Rightarrow> real \<Rightarrow> real \<Rightarrow> real \<Rightarrow> real \<Rightarrow> real \<Rightarrow> real" where
  "snr_val pt d fc g_tx g_rx bw g =
     pt * g_tx * g_rx / ((if d = 0 then 1 / 10 else d) ^ 3 / (C_LIGHT / fc) ^ 2) / \<bar>noise bw g\<bar>"

text \<open>
  The rate term \<open>MIMO_STREAMS * capacity(bw, max(snr, 0.01))\<close> and the power-proxy
  term \<open>(d / 1000) ** PATH_EXP\<close> of one link.
\<close>

definition link_rate :: "real \<Rightarrow> real \<Rightarrow> real \<Rightarrow> real \<Rightarrow> real \<Rightarrow> real \<Rightarrow> real" where
  "link_rate pt d fc g_rx bw g =
     MIMO_STREAMS * (bw * log 2 (1 + max (snr_val pt d fc UE_TX_GAIN g_rx bw g) (1 / 100)))"

definition link_power :: "real \<Rightarrow> real" where
  "link_power d = (d / 1000) ^ 3"

text \<open>
  The parent of a UE in the D2D pass and the receive gain chosen for it; the distances
  of the three kinds of link (UE to base station, UE to parent, relay to base station).
\<close>

definition resolve_parent :: "node list \<Rightarrow> node \<Rightarrow> node \<Rightarrow> error + node" where
  "resolve_parent df bs ue = (case Parent_ID ue of None \<Rightarrow> Inr bs | Some p \<Rightarrow> lookup_id df p)"

definition rx_gain :: "node \<Rightarrow> node \<Rightarrow> real" where
  "rx_gain bs parent = (if ID parent = ID bs then BS_RX_GAIN else PARENT_RX_GAIN)"

definition bs_dist :: "node \<Rightarrow> node \<Rightarrow> real" where
  "bs_dist bs ue = dist_m ue (Latitude bs) (Longitude bs)"

definition up_dist :: "node list \<Rightarrow> node \<Rightarrow> node \<Rightarrow> real" where
  "up_dist df bs ue =
     (case resolve_parent df bs ue of
        Inl e \<Rightarrow> 0
      | Inr parent \<Rightarrow> dist_m ue (Latitude parent) (Longitude parent))"

definition up_gain :: "node list \<Rightarrow> node \<Rightarrow> node \<Rightarrow> real" where
  "up_gain df bs ue =
     (case resolve_parent df bs ue of Inl e \<Rightarrow> 0 | Inr parent \<Rightarrow> rx_gain bs parent)"

definition hop_dist :: "node list \<Rightarrow> node \<Rightarrow> int \<Rightarrow> real" where
  "hop_dist df bs pid =
     (case lookup_id df pid of
        Inl e \<Rightarrow> 0
      | Inr parent \<Rightarrow> dist_m parent (Latitude bs) (Longitude bs))"

text \<open>
  The identifiers named as parent by some UE, other than the identifier of the base
  station: the content of \<open>parents\<close> after the D2D pass.
\<close>

definition relay_ids :: "node \<Rightarrow> node list \<Rightarrow> int set" where
  "relay_ids bs ues = {p \<in> set (List.map_filter Parent_ID ues). p \<noteq> ID bs}"

text \<open>
  \<open>for pid in parents\<close> visits every element of the set exactly once:
  \<open>enumerates iter S\<close> says so of the enumeration \<open>iter\<close> on the set \<open>S\<close>.
\<close>

definition enumerates :: "(int set \<Rightarrow> int list) \<Rightarrow> int set \<Rightarrow> bool" where
  "enumerates iter S = (set (iter S) = S \<and> distinct (iter S))"

text \<open>
  The power-proxy sums of a band in terms of the topology alone.
\<close>

definition base_power :: "node \<Rightarrow> node list \<Rightarrow> real" where
  "base_power bs ues = sum_list (map (\<lambda>ue. link_power (bs_dist bs ue)) ues)"

definition d2d_power_sum :: "node list \<Rightarrow> node \<Rightarrow> node list \<Rightarrow> real" where
  "d2d_power_sum df bs ues =
     sum_list (map (\<lambda>ue. link_power (up_dist df bs ue)) ues)
       + (\<Sum>p \<in> relay_ids bs ues. link_power (hop_dist df bs p))"

text \<open>
  What one execution of a loop body adds to the baseline sums, or to the D2D sums: the
  exception, or the pair of the rate term and the power-proxy term.
\<close>

definition baseline_contribution :: "sim_state \<Rightarrow> error + sim_state \<Rightarrow> error + real \<times> real" where
  "baseline_contribution s r =
     (case r of Inl e \<Rightarrow> Inl e
      | Inr s' \<Rightarrow> Inr (rate_baseline s' - rate_baseline s, power_baseline s' - power_baseline s))"

definition d2d_contribution :: "sim_state \<Rightarrow> error + sim_state \<Rightarrow> error + real \<times> real" where
  "d2d_contribution s r =
     (case r of Inl e \<Rightarrow> Inl e
      | Inr s' \<Rightarrow> Inr (rate_d2d s' - rate_d2d s, power_d2d s' - power_d2d s))"

section \<open>A small topology\<close>

text \<open>
  A base station at (0, 0); UE 1 at (0, 180) without parent; UE 2 and UE 3, which both
  name UE 1 as parent; UE 4, whose \<open>Parent ID\<close> is the identifier of the base
  station. Also the table that holds the base station only, two sequences of normal
  draws, the band n77 and a state with all sums at zero.
\<close>

definition base_station :: node where
  "base_station = \<lparr>Name = ''BaseStation'', ID = 0, Latitude = 0, Longitude = 0, Parent_ID = None\<rparr>"

definition ue_direct :: node where
  "ue_direct = \<lparr>Name = ''UE1'', ID = 1, Latitude = 0, Longitude = 180, Parent_ID = None\<rparr>"

definition ue_relayed_a :: node where
  "ue_relayed_a = \<lparr>Name = ''UE2'', ID = 2, Latitude = 0, Longitude = 180, Parent_ID = Some 1\<rparr>"

definition ue_relayed_b :: node where
  "ue_relayed_b = \<lparr>Name = ''UE3'', ID = 3, Latitude = 0, Longitude = 0, Parent_ID = Some 1\<rparr>"

definition ue_via_bs_id :: node where
  "ue_via_bs_id = \<lparr>Name = ''UE4'', ID = 4, Latitude = 0, Longitude = 180, Parent_ID = Some 0\<rparr>"

definition example_df :: "node list" where
  "example_df = [base_station, ue_direct, ue_relayed_a, ue_relayed_b, ue_via_bs_id]"

definition bs_only_df :: "node list" where
  "bs_only_df = [base_station]"

text \<open>
  A UE at latitude 4e-160 degrees on the meridian of the base station: its distance to
  the base station is about 4e-155 m, which is not 0.
\<close>

definition ue_near_bs :: node where
  "ue_near_bs = \<lparr>Name = ''UE5'', ID = 5, Latitude = 4 / 10 ^ 160, Longitude = 0, Parent_ID = None\<rparr>"

definition near_df :: "node list" where
  "near_df = [base_station, ue_near_bs]"

definition zero_draws :: "nat \<Rightarrow> real" where
  "zero_draws k = 0"

definition unit_draws :: "nat \<Rightarrow> real" where
  "unit_draws k = 1"

definition band_n77 :: band where
  "band_n77 = \<lparr>band_fc = 3700000000, band_bw = 200000000, band_eirp_dbm = 30\<rparr>"

definition initial_state :: sim_state where
  "initial_state = \<lparr>power_baseline = 0, power_d2d = 0, rate_baseline = 0, rate_d2d = 0,
                     parents = {}, draws = 0\<rparr>"

section \<open>The helper functions\<close>

lemma hav_core:
  fixes x y s :: real
  assumes "0 \<le> s" "s \<le> 1"
  shows "0 \<le> (sin ((y - x) / 2)) ^ 2 + cos x * cos y * s"
    and "(sin ((y - x) / 2)) ^ 2 + cos x * cos y * s \<le> 1"
proof -
  define c1 where "c1 = cos (y - x)"
  define c2 where "c2 = cos (x + y)"
  define A where "A = (sin ((y - x) / 2)) ^ 2 + cos x * cos y * s"
  have b1: "- 1 \<le> c1" "c1 \<le> 1" and b2: "- 1 \<le> c2" "c2 \<le> 1"
    by (simp_all add: c1_def c2_def)
  have "cos (y - x) = 1 - 2 * (sin ((y - x) / 2)) ^ 2"
  proof -
    define t where "t = (y - x) / 2"
    have "y - x = 2 * t" by (simp add: t_def)
    then show ?thesis unfolding t_def [symmetric] by (simp only: cos_double_sin)
  qed
  then have h1: "(sin ((y - x) / 2)) ^ 2 = (1 - c1) / 2"
    by (simp add: c1_def)
  have h2: "cos x * cos y = (c1 + c2) / 2"
    by (simp add: c1_def c2_def cos_diff cos_add)
  have e1: "2 * A = (1 - c1) * (1 - s) + s * (1 + c2)"
    unfolding A_def h1 h2 by (simp add: field_simps)
  have e2: "2 - 2 * A = (1 + c1) * (1 - s) + s * (1 - c2)"
    unfolding A_def h1 h2 by (simp add: field_simps)
  have "0 \<le> (1 - c1) * (1 - s)" "0 \<le> s * (1 + c2)"
    using b1 b2 assms by simp_all
  then have "0 \<le> 2 * A"
    unfolding e1 by (rule add_nonneg_nonneg)
  then show "0 \<le> (sin ((y - x) / 2)) ^ 2 + cos x * cos y * s"
    unfolding A_def by simp
  have "0 \<le> (1 + c1) * (1 - s)" "0 \<le> s * (1 - c2)"
    using b1 b2 assms by simp_all
  then have "0 \<le> 2 - 2 * A"
    unfolding e2 by (rule add_nonneg_nonneg)
  then show "(sin ((y - x) / 2)) ^ 2 + cos x * cos y * s \<le> 1"
    unfolding A_def by simp
qed

lemma sin_sq_le_1: "(sin (t::real)) ^ 2 \<le> 1"
  using abs_sin_le_one [of t] by (simp add: abs_square_le_1)

lemma hav_a_bounds: "0 \<le> hav_a row lat lon" "hav_a row lat lon \<le> 1"
proof -
  have eq: "math_radians (lat - Latitude row) = math_radians lat - math_radians (Latitude row)"
    by (simp add: math_radians_def algebra_simps diff_divide_distrib)
  show "0 \<le> hav_a row lat lon"
    unfolding hav_a_def eq
    by (rule hav_core(1)) (simp_all add: sin_sq_le_1)
  show "hav_a row lat lon \<le> 1"
    unfolding hav_a_def eq
    by (rule hav_core(2)) (simp_all add: sin_sq_le_1)
qed

lemma math_atan2_nonneg: "0 \<le> y \<Longrightarrow> 0 \<le> x \<Longrightarrow> 0 \<le> math_atan2 y x"
  by (simp add: math_atan2_def zero_le_arctan_iff)

lemma haversine_m_eq: "haversine_m row lat lon = Inr (dist_m row lat lon)"
  using hav_a_bounds [of row lat lon]
  by (simp add: haversine_m_def dist_m_def hav_a_def [symmetric] Let_def ebind_def math_sqrt_def)

lemma dist_m_nonneg: "0 \<le> dist_m row lat lon"
  using hav_a_bounds [of row lat lon]
  by (simp add: dist_m_def EARTH_R_def math_atan2_nonneg)

lemma float_pow_zero_iff: "float_pow x n = 0 \<longleftrightarrow> \<bar>x ^ n\<bar> \<le> 1 / 2 ^ 1075"
proof -
  have "x ^ n \<noteq> 0" if "\<not> \<bar>x ^ n\<bar> \<le> 1 / 2 ^ 1075"
  proof
    assume "x ^ n = 0"
    then have "\<bar>x ^ n\<bar> \<le> 1 / 2 ^ 1075" by (simp only: abs_zero) simp
    with that show False by simp
  qed
  then show ?thesis by (auto simp: float_pow_def)
qed

lemma float_pow_eq: "float_pow x n \<noteq> 0 \<Longrightarrow> float_pow x n = x ^ n"
  by (simp add: float_pow_def split: if_splits)

lemma path_loss_eq:
  "fc \<noteq> 0 \<Longrightarrow> rayleigh_path_loss fc d = Inr (float_pow d 3 / (C_LIGHT / fc) ^ 2)"
  by (simp add: rayleigh_path_loss_def ebind_def py_div_def C_LIGHT_def PATH_EXP_def)

lemma path_loss_nonzero:
  "fc \<noteq> 0 \<Longrightarrow> d \<noteq> 0 \<Longrightarrow> d ^ 3 / (C_LIGHT / fc) ^ 2 \<noteq> 0"
  by (simp add: C_LIGHT_def)

lemma snr_rayleigh_eq:
  assumes "fc \<noteq> 0"
  shows "snr_rayleigh pt d fc g_tx g_rx bw g =
           (if cube_underflows d \<or> noise bw g = 0 then Inl ZeroDivisionError
            else Inr (snr_val pt d fc g_tx g_rx bw g))"
proof -
  define d' :: real where "d' = (if d = 0 then 1 / 10 else d)"
  have d': "d' \<noteq> 0" by (simp add: d'_def)
  have pl: "rayleigh_path_loss fc d' = Inr (float_pow d' 3 / (C_LIGHT / fc) ^ 2)"
    using assms by (rule path_loss_eq)
  have s: "snr_rayleigh pt d fc g_tx g_rx bw g =
          ebind (rayleigh_path_loss fc d') (\<lambda>path_loss.
          ebind (py_div (pt * g_tx * g_rx) path_loss) (\<lambda>prx. py_div prx \<bar>noise bw g\<bar>))"
    by (simp add: snr_rayleigh_def d'_def)
  show ?thesis
  proof (cases "cube_underflows d")
    case True
    then have "float_pow d' 3 = 0" by (simp add: cube_underflows_def d'_def PATH_EXP_def)
    with True show ?thesis by (simp add: s pl ebind_def py_div_def)
  next
    case False
    then have "float_pow d' 3 \<noteq> 0" by (simp add: cube_underflows_def d'_def PATH_EXP_def)
    then have f: "float_pow d' 3 = d' ^ 3" by (rule float_pow_eq)
    have nz: "d' ^ 3 / (C_LIGHT / fc) ^ 2 \<noteq> 0"
      using assms d' by (rule path_loss_nonzero)
    have "snr_rayleigh pt d fc g_tx g_rx bw g
            = py_div (pt * g_tx * g_rx / (d' ^ 3 / (C_LIGHT / fc) ^ 2)) \<bar>noise bw g\<bar>"
      using nz by (simp add: s pl f ebind_def py_div_def)
    also have "\<dots> = (if noise bw g = 0 then Inl ZeroDivisionError
                       else Inr (snr_val pt d fc g_tx g_rx bw g))"
      by (simp add: py_div_def snr_val_def d'_def)
    finally show ?thesis using False by simp
  qed
qed

lemma capacity_floor_eq:
  "capacity bw (max snr (1 / 100)) = Inr (bw * log 2 (1 + max snr (1 / 100)))"
proof -
  have "0 < 1 + max snr (1 / 100)" by simp
  then show ?thesis by (simp add: capacity_def math_log2_def ebind_def)
qed

lemma log2_floor_pos: "0 < log 2 (1 + max snr (1 / 100))"
proof -
  have "1 < 1 + max snr (1 / 100)" by simp
  then show ?thesis by simp
qed

lemma link_rate_pos: "0 < bw \<Longrightarrow> 0 < link_rate pt d fc g_rx bw g"
  by (simp add: link_rate_def MIMO_STREAMS_def log2_floor_pos)

lemma link_power_nonneg: "0 \<le> d \<Longrightarrow> 0 \<le> link_power d"
  by (simp add: link_power_def)

lemma baseline_step_eq:
  assumes "fc \<noteq> 0"
  shows "baseline_step z bs fc bw pt ue s =
           (if cube_underflows (dist_m ue (Latitude bs) (Longitude bs)) \<or>
               noise bw (z (draws s)) = 0 then Inl ZeroDivisionError
            else Inr (s\<lparr>rate_baseline := rate_baseline s
                          + link_rate pt (dist_m ue (Latitude bs) (Longitude bs)) fc BS_RX_GAIN bw
                              (z (draws s)),
                        power_baseline := power_baseline s
                          + link_power (dist_m ue (Latitude bs) (Longitude bs)),
                        draws := Suc (draws s)\<rparr>))"
  by (simp add: baseline_step_def haversine_m_eq snr_rayleigh_eq [OF assms] capacity_floor_eq
      ebind_def Let_def link_rate_def link_power_def PATH_EXP_def)

lemma d2d_step_eq:
  assumes "fc \<noteq> 0"
  shows "d2d_step z df bs fc bw pt ue s =
           (case resolve_parent df bs ue of
              Inl e \<Rightarrow> Inl e
            | Inr parent \<Rightarrow>
                if cube_underflows (dist_m ue (Latitude parent) (Longitude parent)) \<or>
                   noise bw (z (draws s)) = 0 then Inl ZeroDivisionError
                else Inr (s\<lparr>rate_d2d := rate_d2d s
                              + link_rate pt (dist_m ue (Latitude parent) (Longitude parent)) fc
                                  (rx_gain bs parent) bw (z (draws s)),
                            power_d2d := power_d2d s
                              + link_power (dist_m ue (Latitude parent) (Longitude parent)),
                            draws := Suc (draws s),
                            parents := (if ID parent \<noteq> ID bs then insert (ID parent) (parents s)
                                        else parents s)\<rparr>))"
  by (simp add: d2d_step_def haversine_m_eq snr_rayleigh_eq [OF assms] capacity_floor_eq
      ebind_def Let_def link_rate_def link_power_def PATH_EXP_def resolve_parent_def rx_gain_def
      split: sum.splits option.splits)

lemma relay_step_eq:
  assumes "fc \<noteq> 0"
  shows "relay_step z df bs fc bw pt pid s =
           (case lookup_id df pid of
              Inl e \<Rightarrow> Inl e
            | Inr parent \<Rightarrow>
                if cube_underflows (dist_m parent (Latitude bs) (Longitude bs)) \<or>
                   noise bw (z (draws s)) = 0 then Inl ZeroDivisionError
                else Inr (s\<lparr>rate_d2d := rate_d2d s
                              + link_rate pt (dist_m parent (Latitude bs) (Longitude bs)) fc
                                  BS_RX_GAIN bw (z (draws s)),
                            power_d2d := power_d2d s
                              + link_power (dist_m parent (Latitude bs) (Longitude bs)),
                            draws := Suc (draws s)\<rparr>))"
  by (simp add: relay_step_def haversine_m_eq snr_rayleigh_eq [OF assms] capacity_floor_eq
      ebind_def Let_def link_rate_def link_power_def PATH_EXP_def
      split: sum.splits)

section \<open>The three loops of a band\<close>

lemma for_each_acc:
  fixes acc :: "sim_state \<Rightarrow> real"
  assumes step: "\<And>x s s'. body x s = Inr s' \<Longrightarrow>
                   draws s' = Suc (draws s) \<and> acc s' = acc s + F x (z (draws s))"
    and run: "for_each body xs s = Inr s'"
  shows "draws s' = draws s + length xs \<and>
         acc s' = acc s + (\<Sum>i<length xs. F (xs ! i) (z (draws s + i)))"
  using run
proof (induction xs arbitrary: s)
  case Nil
  then show ?case by simp
next
  case (Cons x xs)
  from Cons.prems obtain s1 where b: "body x s = Inr s1" and r: "for_each body xs s1 = Inr s'"
    by (auto split: sum.splits)
  from step [OF b] have d: "draws s1 = Suc (draws s)"
    and a: "acc s1 = acc s + F x (z (draws s))" by simp_all
  from Cons.IH [OF r] have d': "draws s' = draws s1 + length xs"
    and a': "acc s' = acc s1 + (\<Sum>i<length xs. F (xs ! i) (z (draws s1 + i)))" by simp_all
  define G where "G i = F ((x # xs) ! i) (z (draws s + i))" for i
  have "(\<Sum>i<Suc (length xs). G i) = G 0 + (\<Sum>i<length xs. G (Suc i))"
    by (rule sum.lessThan_Suc_shift)
  then have "(\<Sum>i<length (x # xs). F ((x # xs) ! i) (z (draws s + i)))
          = F x (z (draws s)) + (\<Sum>i<length xs. F (xs ! i) (z (draws s1 + i)))"
    by (simp add: G_def d)
  with d d' a a' show ?case by simp
qed

lemma for_each_keep:
  assumes step: "\<And>x s s'. body x s = Inr s' \<Longrightarrow> fld s' = fld s"
    and run: "for_each body xs s = Inr s'"
  shows "fld s' = fld s"
  using run
proof (induction xs arbitrary: s)
  case Nil
  then show ?case by simp
next
  case (Cons x xs)
  from Cons.prems obtain s1 where b: "body x s = Inr s1" and r: "for_each body xs s1 = Inr s'"
    by (auto split: sum.splits)
  from Cons.IH [OF r] step [OF b] show ?case by simp
qed

lemma for_each_total:
  assumes step: "\<And>x s. x \<in> set xs \<Longrightarrow> \<exists>s'. body x s = Inr s'"
  shows "\<exists>s'. for_each body xs s = Inr s'"
  using step
proof (induction xs arbitrary: s)
  case Nil
  then show ?case by simp
next
  case (Cons x xs)
  from Cons.prems [of x s] obtain s1 where b: "body x s = Inr s1" by auto
  from Cons.IH [of s1] Cons.prems obtain s' where "for_each body xs s1 = Inr s'" by auto
  with b show ?case by simp
qed

lemma lookup_id_ID: "lookup_id df p = Inr parent \<Longrightarrow> ID parent = p"
proof -
  assume a: "lookup_id df p = Inr parent"
  then obtain rest where "filter (\<lambda>r. ID r = p) df = parent # rest"
    by (auto simp: lookup_id_def split: list.splits)
  then have "parent \<in> set (filter (\<lambda>r. ID r = p) df)" by simp
  then show ?thesis by simp
qed

lemma sum_nth_power: "(\<Sum>i<length xs. f (xs ! i)) = sum_list (map f xs)"
  by (simp add: sum_list_sum_nth atLeast0LessThan)

lemma baseline_loop:
  assumes fc: "fc \<noteq> 0" and run: "for_each (baseline_step z bs fc bw pt) ues s = Inr s'"
  shows "draws s' = draws s + length ues"
    and "rate_baseline s' = rate_baseline s
           + (\<Sum>i<length ues. link_rate pt (bs_dist bs (ues ! i)) fc BS_RX_GAIN bw (z (draws s + i)))"
    and "power_baseline s' = power_baseline s + sum_list (map (\<lambda>ue. link_power (bs_dist bs ue)) ues)"
    and "rate_d2d s' = rate_d2d s" and "power_d2d s' = power_d2d s" and "parents s' = parents s"
proof -
  have r: "draws s' = draws s + length ues \<and> rate_baseline s' = rate_baseline s
      + (\<Sum>i<length ues. link_rate pt (bs_dist bs (ues ! i)) fc BS_RX_GAIN bw (z (draws s + i)))"
    by (rule for_each_acc [OF _ run])
       (auto simp: baseline_step_eq [OF fc] bs_dist_def split: if_splits)
  have p: "draws s' = draws s + length ues \<and> power_baseline s' = power_baseline s
      + (\<Sum>i<length ues. (\<lambda>ue g. link_power (bs_dist bs ue)) (ues ! i) (z (draws s + i)))"
    by (rule for_each_acc [OF _ run])
       (auto simp: baseline_step_eq [OF fc] bs_dist_def split: if_splits)
  show "draws s' = draws s + length ues" using r by simp
  show "rate_baseline s' = rate_baseline s
      + (\<Sum>i<length ues. link_rate pt (bs_dist bs (ues ! i)) fc BS_RX_GAIN bw (z (draws s + i)))"
    using r by simp
  show "power_baseline s' = power_baseline s + sum_list (map (\<lambda>ue. link_power (bs_dist bs ue)) ues)"
    using p sum_nth_power [of "\<lambda>ue. link_power (bs_dist bs ue)" ues] by simp
  show "rate_d2d s' = rate_d2d s"
    by (rule for_each_keep [OF _ run]) (auto simp: baseline_step_eq [OF fc] split: if_splits)
  show "power_d2d s' = power_d2d s"
    by (rule for_each_keep [OF _ run]) (auto simp: baseline_step_eq [OF fc] split: if_splits)
  show "parents s' = parents s"
    by (rule for_each_keep [OF _ run]) (auto simp: baseline_step_eq [OF fc] split: if_splits)
qed

lemma for_each_parents:
  assumes step: "\<And>x s s'. body x s = Inr s' \<Longrightarrow> parents s' = parents s \<union> R x"
    and run: "for_each body xs s = Inr s'"
  shows "parents s' = parents s \<union> (\<Union>x \<in> set xs. R x)"
  using run
proof (induction xs arbitrary: s)
  case Nil
  then show ?case by simp
next
  case (Cons x xs)
  from Cons.prems obtain s1 where b: "body x s = Inr s1" and r: "for_each body xs s1 = Inr s'"
    by (auto split: sum.splits)
  from Cons.IH [OF r] step [OF b] show ?case by auto
qed

lemma d2d_step_parents:
  assumes b: "d2d_step z df bs fc bw pt ue s = Inr s'"
  shows "parents s' = parents s \<union> {p. p \<noteq> ID bs \<and> Parent_ID ue = Some p}"
proof (cases "Parent_ID ue")
  case None
  with b show ?thesis
    by (auto simp: d2d_step_def ebind_def Let_def split: sum.splits)
next
  case (Some p)
  with b obtain parent where l: "lookup_id df p = Inr parent"
    by (auto simp: d2d_step_def ebind_def split: sum.splits)
  then have "ID parent = p" by (rule lookup_id_ID)
  with b Some l show ?thesis
    by (auto simp: d2d_step_def ebind_def Let_def split: sum.splits if_splits)
qed

lemma relay_ids_iff:
  "p \<in> relay_ids bs ues \<longleftrightarrow> p \<noteq> ID bs \<and> (\<exists>ue \<in> set ues. Parent_ID ue = Some p)"
  by (induction ues) (auto simp: relay_ids_def split: option.splits)

lemma relay_ids_UN:
  "relay_ids bs ues = (\<Union>ue \<in> set ues. {p. p \<noteq> ID bs \<and> Parent_ID ue = Some p})"
  by (auto simp: relay_ids_iff)

lemma d2d_step_acc:
  assumes fc: "fc \<noteq> 0" and b: "d2d_step z df bs fc bw pt ue s = Inr s'"
  shows "draws s' = Suc (draws s)"
    and "rate_d2d s' = rate_d2d s
           + link_rate pt (up_dist df bs ue) fc (up_gain df bs ue) bw (z (draws s))"
    and "power_d2d s' = power_d2d s + link_power (up_dist df bs ue)"
    and "rate_baseline s' = rate_baseline s" and "power_baseline s' = power_baseline s"
  using b
  by (auto simp: d2d_step_eq [OF fc] up_dist_def up_gain_def split: sum.splits if_splits)

lemma d2d_loop:
  assumes fc: "fc \<noteq> 0" and run: "for_each (d2d_step z df bs fc bw pt) ues s = Inr s'"
  shows "draws s' = draws s + length ues"
    and "rate_d2d s' = rate_d2d s
           + (\<Sum>i<length ues. link_rate pt (up_dist df bs (ues ! i)) fc (up_gain df bs (ues ! i)) bw
                 (z (draws s + i)))"
    and "power_d2d s' = power_d2d s + sum_list (map (\<lambda>ue. link_power (up_dist df bs ue)) ues)"
    and "rate_baseline s' = rate_baseline s" and "power_baseline s' = power_baseline s"
    and "parents s' = parents s \<union> relay_ids bs ues"
proof -
  have r: "draws s' = draws s + length ues \<and> rate_d2d s' = rate_d2d s
      + (\<Sum>i<length ues. (\<lambda>ue. link_rate pt (up_dist df bs ue) fc (up_gain df bs ue) bw) (ues ! i)
            (z (draws s + i)))"
    by (rule for_each_acc [OF _ run]) (simp add: d2d_step_acc [OF fc])
  have p: "draws s' = draws s + length ues \<and> power_d2d s' = power_d2d s
      + (\<Sum>i<length ues. (\<lambda>ue g. link_power (up_dist df bs ue)) (ues ! i) (z (draws s + i)))"
    by (rule for_each_acc [OF _ run]) (simp add: d2d_step_acc [OF fc])
  show "draws s' = draws s + length ues" using r by simp
  show "rate_d2d s' = rate_d2d s
      + (\<Sum>i<length ues. link_rate pt (up_dist df bs (ues ! i)) fc (up_gain df bs (ues ! i)) bw
            (z (draws s + i)))"
    using r by simp
  show "power_d2d s' = power_d2d s + sum_list (map (\<lambda>ue. link_power (up_dist df bs ue)) ues)"
    using p sum_nth_power [of "\<lambda>ue. link_power (up_dist df bs ue)" ues] by simp
  show "rate_baseline s' = rate_baseline s"
    by (rule for_each_keep [OF _ run]) (simp add: d2d_step_acc [OF fc])
  show "power_baseline s' = power_baseline s"
    by (rule for_each_keep [OF _ run]) (simp add: d2d_step_acc [OF fc])
  show "parents s' = parents s \<union> relay_ids bs ues"
    unfolding relay_ids_UN
    by (rule for_each_parents [OF _ run]) (rule d2d_step_parents)
qed

lemma relay_step_acc:
  assumes fc: "fc \<noteq> 0" and b: "relay_step z df bs fc bw pt pid s = Inr s'"
  shows "draws s' = Suc (draws s)"
    and "rate_d2d s' = rate_d2d s
           + link_rate pt (hop_dist df bs pid) fc BS_RX_GAIN bw (z (draws s))"
    and "power_d2d s' = power_d2d s + link_power (hop_dist df bs pid)"
    and "rate_baseline s' = rate_baseline s" and "power_baseline s' = power_baseline s"
    and "parents s' = parents s"
  using b
  by (auto simp: relay_step_eq [OF fc] hop_dist_def split: sum.splits if_splits)

lemma relay_loop:
  assumes fc: "fc \<noteq> 0" and run: "for_each (relay_step z df bs fc bw pt) hops s = Inr s'"
  shows "draws s' = draws s + length hops"
    and "rate_d2d s' = rate_d2d s
           + (\<Sum>j<length hops. link_rate pt (hop_dist df bs (hops ! j)) fc BS_RX_GAIN bw
                 (z (draws s + j)))"
    and "power_d2d s' = power_d2d s + sum_list (map (\<lambda>p. link_power (hop_dist df bs p)) hops)"
    and "rate_baseline s' = rate_baseline s" and "power_baseline s' = power_baseline s"
    and "parents s' = parents s"
proof -
  have r: "draws s' = draws s + length hops \<and> rate_d2d s' = rate_d2d s
      + (\<Sum>j<length hops. (\<lambda>p. link_rate pt (hop_dist df bs p) fc BS_RX_GAIN bw) (hops ! j)
            (z (draws s + j)))"
    by (rule for_each_acc [OF _ run]) (simp add: relay_step_acc [OF fc])
  have p: "draws s' = draws s + length hops \<and> power_d2d s' = power_d2d s
      + (\<Sum>j<length hops. (\<lambda>p g. link_power (hop_dist df bs p)) (hops ! j) (z (draws s + j)))"
    by (rule for_each_acc [OF _ run]) (simp add: relay_step_acc [OF fc])
  show "draws s' = draws s + length hops" using r by simp
  show "rate_d2d s' = rate_d2d s
      + (\<Sum>j<length hops. link_rate pt (hop_dist df bs (hops ! j)) fc BS_RX_GAIN bw
            (z (draws s + j)))"
    using r by simp
  show "power_d2d s' = power_d2d s + sum_list (map (\<lambda>p. link_power (hop_dist df bs p)) hops)"
    using p sum_nth_power [of "\<lambda>p. link_power (hop_dist df bs p)" hops] by simp
  show "rate_baseline s' = rate_baseline s"
    by (rule for_each_keep [OF _ run]) (simp add: relay_step_acc [OF fc])
  show "power_baseline s' = power_baseline s"
    by (rule for_each_keep [OF _ run]) (simp add: relay_step_acc [OF fc])
  show "parents s' = parents s"
    by (rule for_each_keep [OF _ run]) (simp add: relay_step_acc [OF fc])
qed

text \<open>The state after the three loops of one band.\<close>

lemma accumulate_band_result:
  assumes fc: "band_fc bnd \<noteq> 0"
    and run: "accumulate_band iter z df bs ues bnd k = Inr s"
  shows "power_baseline s = sum_list (map (\<lambda>ue. link_power (bs_dist bs ue)) ues)"
    and "rate_baseline s =
           (\<Sum>i<length ues. link_rate (dbm_to_w (band_eirp_dbm bnd)) (bs_dist bs (ues ! i))
                 (band_fc bnd) BS_RX_GAIN (band_bw bnd) (z (k + i)))"
    and "power_d2d s = sum_list (map (\<lambda>ue. link_power (up_dist df bs ue)) ues)
           + sum_list (map (\<lambda>p. link_power (hop_dist df bs p)) (iter (relay_ids bs ues)))"
    and "rate_d2d s =
           (\<Sum>i<length ues. link_rate (dbm_to_w (band_eirp_dbm bnd)) (up_dist df bs (ues ! i))
                 (band_fc bnd) (up_gain df bs (ues ! i)) (band_bw bnd) (z (k + length ues + i)))
           + (\<Sum>j<length (iter (relay_ids bs ues)).
                 link_rate (dbm_to_w (band_eirp_dbm bnd)) (hop_dist df bs (iter (relay_ids bs ues) ! j))
                 (band_fc bnd) BS_RX_GAIN (band_bw bnd) (z (k + 2 * length ues + j)))"
    and "parents s = relay_ids bs ues"
    and "draws s = k + 2 * length ues + length (iter (relay_ids bs ues))"
proof -
  define s0 where "s0 = \<lparr>power_baseline = 0, power_d2d = 0, rate_baseline = 0, rate_d2d = 0,
                parents = {}, draws = k\<rparr>"
  define pt where "pt = dbm_to_w (band_eirp_dbm bnd)"
  from run obtain s1 s2 where
    r1: "for_each (baseline_step z bs (band_fc bnd) (band_bw bnd) pt) ues s0 = Inr s1" and
    r2: "for_each (d2d_step z df bs (band_fc bnd) (band_bw bnd) pt) ues s1 = Inr s2" and
    r3: "for_each (relay_step z df bs (band_fc bnd) (band_bw bnd) pt) (iter (parents s2)) s2 = Inr s"
    by (auto simp: accumulate_band_def Let_def ebind_def s0_def pt_def split: sum.splits)
  note b = baseline_loop [OF fc r1]
  note d = d2d_loop [OF fc r2]
  have ps: "parents s2 = relay_ids bs ues" using d(6) b(6) by (simp add: s0_def)
  note r = relay_loop [OF fc r3 [unfolded ps]]
  show "power_baseline s = sum_list (map (\<lambda>ue. link_power (bs_dist bs ue)) ues)"
    using b(3) d(5) r(5) by (simp add: s0_def)
  show "rate_baseline s =
           (\<Sum>i<length ues. link_rate (dbm_to_w (band_eirp_dbm bnd)) (bs_dist bs (ues ! i))
                 (band_fc bnd) BS_RX_GAIN (band_bw bnd) (z (k + i)))"
    using b(2) d(4) r(4) by (simp add: s0_def pt_def)
  show "power_d2d s = sum_list (map (\<lambda>ue. link_power (up_dist df bs ue)) ues)
           + sum_list (map (\<lambda>p. link_power (hop_dist df bs p)) (iter (relay_ids bs ues)))"
    using b(5) d(3) r(3) by (simp add: s0_def)
  show "rate_d2d s =
           (\<Sum>i<length ues. link_rate (dbm_to_w (band_eirp_dbm bnd)) (up_dist df bs (ues ! i))
                 (band_fc bnd) (up_gain df bs (ues ! i)) (band_bw bnd) (z (k + length ues + i)))
           + (\<Sum>j<length (iter (relay_ids bs ues)).
                 link_rate (dbm_to_w (band_eirp_dbm bnd)) (hop_dist df bs (iter (relay_ids bs ues) ! j))
                 (band_fc bnd) BS_RX_GAIN (band_bw bnd) (z (k + 2 * length ues + j)))"
    using b(4) b(1) d(2) d(1) r(2) by (simp add: s0_def pt_def mult_2 add.assoc)
  show "parents s = relay_ids bs ues" using r(6) ps by simp
  show "draws s = k + 2 * length ues + length (iter (relay_ids bs ues))"
    using b(1) d(1) r(1) by (simp add: s0_def)
qed

lemma nr_bands_ok: "(tag, bnd) \<in> set NR_BANDS \<Longrightarrow> band_fc bnd \<noteq> 0 \<and> 0 < band_bw bnd"
  by (auto simp: NR_BANDS_def)

lemma relay_ids_finite: "finite (relay_ids bs ues)"
  by (simp add: relay_ids_def)

lemma enumerates_sorted: "enumerates sorted_list_of_set (relay_ids bs ues)"
  by (simp add: enumerates_def relay_ids_finite)

lemma hop_power_sum:
  assumes "enumerates iter S"
  shows "sum_list (map f (iter S)) = (\<Sum>p \<in> S. f p)" and "length (iter S) = card S"
proof -
  from assms have s: "set (iter S) = S" and d: "distinct (iter S)"
    by (simp_all add: enumerates_def)
  from d have "sum_list (map f (iter S)) = sum f (set (iter S))"
    by (rule sum_list_distinct_conv_sum_set)
  with s show "sum_list (map f (iter S)) = (\<Sum>p \<in> S. f p)" by simp
  from d have "card (set (iter S)) = length (iter S)" by (rule distinct_card)
  with s show "length (iter S) = card S" by simp
qed

lemma up_dist_nonneg: "0 \<le> up_dist df bs ue"
  by (simp add: up_dist_def dist_m_nonneg split: sum.splits)

lemma hop_dist_nonneg: "0 \<le> hop_dist df bs p"
  by (simp add: hop_dist_def dist_m_nonneg split: sum.splits)

lemma bs_dist_nonneg: "0 \<le> bs_dist bs ue"
  by (simp add: bs_dist_def dist_m_nonneg)

lemma lookup_id_total: "p \<in> ID ` set df \<Longrightarrow> \<exists>r. lookup_id df p = Inr r"
proof -
  assume "p \<in> ID ` set df"
  then have "filter (\<lambda>r. ID r = p) df \<noteq> []"
    by (auto simp: filter_empty_conv)
  then show ?thesis by (auto simp: lookup_id_def split: list.splits)
qed

lemma lookup_id_unique:
  assumes "r \<in> set df" and "distinct (map ID df)"
  shows "lookup_id df (ID r) = Inr r"
  using assms
proof (induction df)
  case Nil
  then show ?case by simp
next
  case (Cons x xs)
  show ?case
  proof (cases "x = r")
    case True
    then show ?thesis by (simp add: lookup_id_def)
  next
    case False
    with Cons.prems have r: "r \<in> set xs" and d: "distinct (map ID xs)" and "ID x \<notin> ID ` set xs"
      by auto
    then have "ID x \<noteq> ID r" by auto
    with Cons.IH [OF r d] show ?thesis by (simp add: lookup_id_def)
  qed
qed

lemma load_bs_mem: "load_bs df = Inr bs \<Longrightarrow> bs \<in> set df"
proof -
  assume "load_bs df = Inr bs"
  then obtain rest where "filter (\<lambda>r. Name r = ''BaseStation'') df = bs # rest"
    by (auto simp: load_bs_def split: list.splits)
  then have "bs \<in> set (filter (\<lambda>r. Name r = ''BaseStation'') df)" by simp
  then show ?thesis by simp
qed

lemma lookup_id_mem: "lookup_id df p = Inr r \<Longrightarrow> r \<in> set df"
proof -
  assume "lookup_id df p = Inr r"
  then obtain rest where "filter (\<lambda>r. ID r = p) df = r # rest"
    by (auto simp: lookup_id_def split: list.splits)
  then have "r \<in> set (filter (\<lambda>r. ID r = p) df)" by simp
  then show ?thesis by simp
qed

lemma cube_underflows_iff:
  "cube_underflows d \<longleftrightarrow> \<bar>(if d = 0 then 1 / 10 else d) ^ 3\<bar> \<le> 1 / 2 ^ 1075"
  by (simp only: cube_underflows_def float_pow_zero_iff PATH_EXP_def)

lemma no_underflow_zero: "\<not> cube_underflows 0"
proof -
  have "(1::real) / 2 ^ 1075 < 1 / 2 ^ 10" by (simp add: field_simps)
  also have "\<dots> < \<bar>(1 / 10) ^ 3\<bar>" by (simp add: field_simps)
  finally show ?thesis by (simp add: cube_underflows_iff)
qed

lemma no_underflow_ge_one:
  assumes "1 \<le> d"
  shows "\<not> cube_underflows d"
proof -
  have "(1::real) / 2 ^ 1075 < 1" by simp
  also have "1 \<le> d ^ 3" using assms by (rule one_le_power)
  also have "d ^ 3 \<le> \<bar>d ^ 3\<bar>" by simp
  finally show ?thesis using assms by (simp add: cube_underflows_iff)
qed

lemma accumulate_band_total:
  assumes fc: "band_fc bnd \<noteq> 0" and nz: "\<And>j. noise (band_bw bnd) (z j) \<noteq> 0"
    and res: "\<And>ue p. ue \<in> set ues \<Longrightarrow> Parent_ID ue = Some p \<Longrightarrow> p \<in> ID ` set df"
    and it: "set (iter (relay_ids bs ues)) \<subseteq> relay_ids bs ues"
    and sub: "set ues \<subseteq> set df" "bs \<in> set df"
    and nu: "\<And>r r'. r \<in> set df \<Longrightarrow> r' \<in> set df \<Longrightarrow>
               \<not> cube_underflows (dist_m r (Latitude r') (Longitude r'))"
  shows "\<exists>s. accumulate_band iter z df bs ues bnd k = Inr s"
proof -
  define s0 where "s0 = \<lparr>power_baseline = 0, power_d2d = 0, rate_baseline = 0, rate_d2d = 0,
                parents = {}, draws = k\<rparr>"
  define pt where "pt = dbm_to_w (band_eirp_dbm bnd)"
  have "\<exists>s1. for_each (baseline_step z bs (band_fc bnd) (band_bw bnd) pt) ues s0 = Inr s1"
    using sub nu by (intro for_each_total) (auto simp: baseline_step_eq [OF fc] nz)
  then obtain s1 where
    r1: "for_each (baseline_step z bs (band_fc bnd) (band_bw bnd) pt) ues s0 = Inr s1" ..
  have "\<exists>s2. for_each (d2d_step z df bs (band_fc bnd) (band_bw bnd) pt) ues s1 = Inr s2"
  proof (rule for_each_total)
    fix ue s assume ue: "ue \<in> set ues"
    have "\<exists>parent. resolve_parent df bs ue = Inr parent \<and> parent \<in> set df"
    proof (cases "Parent_ID ue")
      case None
      then show ?thesis using sub by (simp add: resolve_parent_def)
    next
      case (Some p)
      with res [OF ue] lookup_id_total [of p df] show ?thesis
        by (auto simp: resolve_parent_def dest: lookup_id_mem)
    qed
    then show "\<exists>s'. d2d_step z df bs (band_fc bnd) (band_bw bnd) pt ue s = Inr s'"
      using ue sub nu by (auto simp: d2d_step_eq [OF fc] nz)
  qed
  then obtain s2 where
    r2: "for_each (d2d_step z df bs (band_fc bnd) (band_bw bnd) pt) ues s1 = Inr s2" ..
  have ps: "parents s2 = relay_ids bs ues"
    using d2d_loop(6) [OF fc r2] baseline_loop(6) [OF fc r1] by (simp add: s0_def)
  have "\<exists>s. for_each (relay_step z df bs (band_fc bnd) (band_bw bnd) pt) (iter (parents s2)) s2
          = Inr s"
  proof (rule for_each_total)
    fix pid s assume "pid \<in> set (iter (parents s2))"
    with it ps have "pid \<in> relay_ids bs ues" by auto
    then obtain ue where "ue \<in> set ues" "Parent_ID ue = Some pid"
      by (auto simp: relay_ids_iff)
    from res [OF this] obtain r where l: "lookup_id df pid = Inr r"
      using lookup_id_total by blast
    then have "r \<in> set df" by (rule lookup_id_mem)
    then have "\<not> cube_underflows (dist_m r (Latitude bs) (Longitude bs))"
      using sub(2) by (rule nu)
    then show "\<exists>s'. relay_step z df bs (band_fc bnd) (band_bw bnd) pt pid s = Inr s'"
      by (simp add: relay_step_eq [OF fc] nz l)
  qed
  then obtain s where
    r3: "for_each (relay_step z df bs (band_fc bnd) (band_bw bnd) pt) (iter (parents s2)) s2
           = Inr s" ..
  from r1 r2 r3 show ?thesis
    by (simp add: accumulate_band_def Let_def ebind_def s0_def pt_def)
qed

lemma sum_list_pos_if:
  fixes f :: "'a \<Rightarrow> real"
  assumes "\<And>x. x \<in> set xs \<Longrightarrow> 0 \<le> f x" and "x \<in> set xs" and "0 < f x"
  shows "0 < sum_list (map f xs)"
proof -
  from assms(2) obtain ys zs where xs: "xs = ys @ x # zs" by (auto simp: in_set_conv_decomp)
  have "0 \<le> sum_list (map f ys)" "0 \<le> sum_list (map f zs)"
    using assms(1) by (auto simp: xs intro!: sum_list_nonneg)
  with assms(3) show ?thesis by (simp add: xs)
qed

lemma rate_baseline_pos:
  assumes fc: "band_fc bnd \<noteq> 0" and bw: "0 < band_bw bnd" and ne: "ues \<noteq> []"
    and run: "accumulate_band iter z df bs ues bnd k = Inr s"
  shows "0 < rate_baseline s"
proof -
  have "{..<length ues} \<noteq> {}" using ne by auto
  then show ?thesis
    unfolding accumulate_band_result(2) [OF fc run]
    by (intro sum_pos) (simp_all add: link_rate_pos [OF bw])
qed

lemma power_baseline_pos:
  assumes fc: "band_fc bnd \<noteq> 0" and far: "ue \<in> set ues" "bs_dist bs ue \<noteq> 0"
    and run: "accumulate_band iter z df bs ues bnd k = Inr s"
  shows "0 < power_baseline s"
proof -
  have "0 < bs_dist bs ue" using far(2) bs_dist_nonneg [of bs ue] by simp
  then have "0 < link_power (bs_dist bs ue)" by (simp add: link_power_def)
  with far(1) show ?thesis
    unfolding accumulate_band_result(1) [OF fc run]
    by (intro sum_list_pos_if [where x = ue]) (simp_all add: link_power_nonneg bs_dist_nonneg)
qed

lemma link_rate_floor:
  assumes "0 < bw"
  shows "MIMO_STREAMS * (bw * log 2 (1 + 1 / 100)) \<le> link_rate pt d fc g_rx bw g"
proof -
  have "(1::real) + 1 / 100 \<le> 1 + max (snr_val pt d fc UE_TX_GAIN g_rx bw g) (1 / 100)" by simp
  then have "log 2 (1 + 1 / 100) \<le> log 2 (1 + max (snr_val pt d fc UE_TX_GAIN g_rx bw g) (1 / 100))"
    by (subst log_le_cancel_iff) simp_all
  with assms show ?thesis by (simp add: link_rate_def MIMO_STREAMS_def)
qed

lemma capacity_floor_value:
  "0 < bw \<Longrightarrow> capacity bw (1 / 100) = Inr (bw * log 2 (1 + 1 / 100)) \<and> 0 < bw * log 2 (1 + 1 / 100)"
  by (simp add: capacity_def math_log2_def ebind_def)

lemma accumulate_band_nonneg:
  assumes fc: "band_fc bnd \<noteq> 0" and bw: "0 < band_bw bnd"
    and run: "accumulate_band iter z df bs ues bnd k = Inr s"
  shows "0 \<le> power_baseline s" and "0 \<le> power_d2d s" and "0 \<le> rate_baseline s"
    and "0 \<le> rate_d2d s"
proof -
  note r = accumulate_band_result [OF fc run]
  show "0 \<le> power_baseline s"
    unfolding r(1) by (intro sum_list_nonneg) (auto simp: link_power_nonneg bs_dist_nonneg)
  show "0 \<le> power_d2d s"
    unfolding r(3)
    by (intro add_nonneg_nonneg sum_list_nonneg)
       (auto simp: link_power_nonneg up_dist_nonneg hop_dist_nonneg)
  show "0 \<le> rate_baseline s"
    unfolding r(2) by (intro sum_nonneg) (simp add: less_imp_le [OF link_rate_pos [OF bw]])
  show "0 \<le> rate_d2d s"
    unfolding r(4)
    by (intro add_nonneg_nonneg sum_nonneg) (simp_all add: less_imp_le [OF link_rate_pos [OF bw]])
qed

section \<open>The rows of the table\<close>

lemma band_row_eq:
  "band_row tag bnd s =
     (if power_baseline s = 0 \<or> rate_baseline s = 0 then Inl ZeroDivisionError
      else Inr \<lparr>Band = tag,
                Frequency_GHz = band_fc bnd / 10 ^ 9,
                Baseline_Power = fmt_power (power_baseline s),
                D2D_Power = fmt_power (power_d2d s),
                Power_Savings = (1 - power_d2d s / power_baseline s) * 100,
                Baseline_Rate = rate_baseline s / 10 ^ 9,
                D2D_Rate = rate_d2d s / 10 ^ 9,
                Sum_Rate_Gain = (rate_d2d s - rate_baseline s) / rate_baseline s * 100\<rparr>)"
  by (simp add: band_row_def py_div_def ebind_def Let_def)

lemma accumulate_power:
  assumes fc: "band_fc bnd \<noteq> 0" and enum: "enumerates iter (relay_ids bs ues)"
    and run: "accumulate_band iter z df bs ues bnd k = Inr s"
  shows "power_baseline s = base_power bs ues" and "power_d2d s = d2d_power_sum df bs ues"
  using accumulate_band_result(1,3) [OF fc run] hop_power_sum(1) [OF enum]
  by (simp_all add: base_power_def d2d_power_sum_def)

lemma simulate_band_cols:
  assumes fc: "band_fc bnd \<noteq> 0" and enum: "enumerates iter (relay_ids bs ues)"
    and run: "simulate_band iter z df bs ues tag bnd k = Inr (row, k')"
  shows "Band row = tag"
    and "Baseline_Power row = fmt_power (base_power bs ues)"
    and "D2D_Power row = fmt_power (d2d_power_sum df bs ues)"
    and "Power_Savings row = (1 - d2d_power_sum df bs ues / base_power bs ues) * 100"
proof -
  from run obtain s where a: "accumulate_band iter z df bs ues bnd k = Inr s"
    and r: "band_row tag bnd s = Inr row"
    by (auto simp: simulate_band_def ebind_def split: sum.splits)
  note p = accumulate_power [OF fc enum a]
  from r show "Band row = tag" by (auto simp: band_row_eq split: if_splits)
  from r p show "Baseline_Power row = fmt_power (base_power bs ues)"
    by (auto simp: band_row_eq split: if_splits)
  from r p show "D2D_Power row = fmt_power (d2d_power_sum df bs ues)"
    by (auto simp: band_row_eq split: if_splits)
  from r p show "Power_Savings row = (1 - d2d_power_sum df bs ues / base_power bs ues) * 100"
    by (auto simp: band_row_eq split: if_splits)
qed

lemma simulate_band_tag:
  assumes "simulate_band iter z df bs ues tag bnd k = Inr (row, k')"
  shows "Band row = tag"
  using assms
  by (auto simp: simulate_band_def ebind_def band_row_eq split: sum.splits if_splits)

lemma simulate_bands_cols:
  assumes step: "\<And>tag bnd k row k'. (tag, bnd) \<in> set bands \<Longrightarrow>
      simulate_band iter z df bs ues tag bnd k = Inr (row, k') \<Longrightarrow> col row = c tag bnd"
    and run: "simulate_bands iter z df bs ues bands results k = Inr rows"
  shows "map col rows = map col results @ map (\<lambda>(tag, bnd). c tag bnd) bands"
  using step run
proof (induction bands arbitrary: results k)
  case Nil
  then show ?case by simp
next
  case (Cons tb bands)
  obtain tag bnd where tb: "tb = (tag, bnd)" by (cases tb)
  from Cons.prems(2) obtain row k' where
    b: "simulate_band iter z df bs ues tag bnd k = Inr (row, k')" and
    r: "simulate_bands iter z df bs ues bands (results @ [row]) k' = Inr rows"
    by (auto simp: tb split: sum.splits)
  have c: "col row = c tag bnd" using Cons.prems(1) [OF _ b] by (simp add: tb)
  have "map col rows = map col (results @ [row]) @ map (\<lambda>(tag, bnd). c tag bnd) bands"
    using Cons.prems(1) by (intro Cons.IH [OF _ r]) auto
  with c show ?case by (simp add: tb)
qed

lemma simulate_bands_total:
  assumes "\<And>tag bnd k. (tag, bnd) \<in> set bands \<Longrightarrow>
      \<exists>row k'. simulate_band iter z df bs ues tag bnd k = Inr (row, k')"
  shows "\<exists>rows. simulate_bands iter z df bs ues bands results k = Inr rows"
  using assms
proof (induction bands arbitrary: results k)
  case Nil
  then show ?case by simp
next
  case (Cons tb bands)
  obtain tag bnd where tb: "tb = (tag, bnd)" by (cases tb)
  from Cons.prems [of tag bnd k] obtain row k' where
    b: "simulate_band iter z df bs ues tag bnd k = Inr (row, k')" by (auto simp: tb)
  have "\<exists>rows. simulate_bands iter z df bs ues bands (results @ [row]) k' = Inr rows"
    using Cons.prems by (intro Cons.IH) auto
  with b show ?case by (simp add: tb)
qed

lemma simulate_band_total:
  assumes fc: "band_fc bnd \<noteq> 0" and bw: "0 < band_bw bnd"
    and acc: "accumulate_band iter z df bs ues bnd k = Inr s"
    and far: "ue \<in> set ues" "bs_dist bs ue \<noteq> 0"
  shows "\<exists>row k'. simulate_band iter z df bs ues tag bnd k = Inr (row, k')"
proof -
  have ne: "ues \<noteq> []" using far(1) by auto
  have "0 < rate_baseline s" by (rule rate_baseline_pos [OF fc bw ne acc])
  moreover have "0 < power_baseline s" by (rule power_baseline_pos [OF fc far acc])
  ultimately show ?thesis
    by (simp add: simulate_band_def acc ebind_def band_row_eq)
qed

text \<open>More noise never raises the rate term of a link.\<close>

lemma snr_val_antimono:
  assumes pt: "0 \<le> pt" and gt: "0 \<le> g_tx" and gr: "0 \<le> g_rx" and d: "0 \<le> d"
    and n1: "0 < \<bar>noise bw g1\<bar>" and n: "\<bar>noise bw g1\<bar> \<le> \<bar>noise bw g2\<bar>"
  shows "snr_val pt d fc g_tx g_rx bw g2 \<le> snr_val pt d fc g_tx g_rx bw g1"
proof -
  define A where "A = pt * g_tx * g_rx / ((if d = 0 then 1 / 10 else d) ^ 3 / (C_LIGHT / fc) ^ 2)"
  have "0 \<le> (if d = 0 then 1 / 10 else d) ^ 3 / (C_LIGHT / fc) ^ 2"
    using d by simp
  moreover have "0 \<le> pt * g_tx * g_rx" using pt gt gr by simp
  ultimately have A: "0 \<le> A" unfolding A_def by (rule divide_nonneg_nonneg [rotated])
  have "A / \<bar>noise bw g2\<bar> \<le> A / \<bar>noise bw g1\<bar>"
    using A n1 n by (intro divide_left_mono) simp_all
  then show ?thesis by (simp add: snr_val_def A_def)
qed

lemma link_rate_antimono:
  assumes pt: "0 \<le> pt" and gr: "0 \<le> g_rx" and d: "0 \<le> d" and bw: "0 \<le> bw"
    and n1: "0 < \<bar>noise bw g1\<bar>" and n: "\<bar>noise bw g1\<bar> \<le> \<bar>noise bw g2\<bar>"
  shows "link_rate pt d fc g_rx bw g2 \<le> link_rate pt d fc g_rx bw g1"
proof -
  have "snr_val pt d fc UE_TX_GAIN g_rx bw g2 \<le> snr_val pt d fc UE_TX_GAIN g_rx bw g1"
    using pt gr d n1 n by (intro snr_val_antimono) (simp_all add: UE_TX_GAIN_def)
  then have "max (snr_val pt d fc UE_TX_GAIN g_rx bw g2) (1 / 100)
      \<le> max (snr_val pt d fc UE_TX_GAIN g_rx bw g1) (1 / 100)" by simp
  then have "log 2 (1 + max (snr_val pt d fc UE_TX_GAIN g_rx bw g2) (1 / 100))
      \<le> log 2 (1 + max (snr_val pt d fc UE_TX_GAIN g_rx bw g1) (1 / 100))"
    by (subst log_le_cancel_iff) simp_all
  with bw show ?thesis
    by (simp add: link_rate_def MIMO_STREAMS_def mult_left_mono)
qed

lemma up_gain_nonneg: "0 \<le> up_gain df bs ue"
  by (simp add: up_gain_def rx_gain_def BS_RX_GAIN_def PARENT_RX_GAIN_def split: sum.splits)

section \<open>Facts about the small topology\<close>

lemma ex_load_bs: "load_bs example_df = Inr base_station"
  by (simp add: load_bs_def example_df_def base_station_def)

lemma ex_load_ues: "load_ues example_df = [ue_direct, ue_relayed_a, ue_relayed_b, ue_via_bs_id]"
  by (simp add: load_ues_def example_df_def base_station_def ue_direct_def ue_relayed_a_def
      ue_relayed_b_def ue_via_bs_id_def)

lemma ex_dist: "bs_dist base_station ue_direct = EARTH_R * pi"
  by (simp add: bs_dist_def dist_m_def hav_a_def base_station_def ue_direct_def math_radians_def
      math_atan2_def)

lemma ex_noise: "noise 200000000 (zero_draws k) \<noteq> 0" "noise 1600000000 (zero_draws k) \<noteq> 0"
  "noise 200000000 (unit_draws k) \<noteq> 0" "noise 1600000000 (unit_draws k) \<noteq> 0"
  by (simp_all add: noise_def zero_draws_def unit_draws_def BOLTZ_def TEMP_K_def)

lemma ex_relay: "relay_ids base_station (load_ues example_df) = {1}"
  by (auto simp: ex_load_ues relay_ids_iff base_station_def ue_direct_def ue_relayed_a_def
      ue_relayed_b_def ue_via_bs_id_def)

lemma ex_lookup_bs: "lookup_id example_df (ID base_station) = Inr base_station"
  by (simp add: lookup_id_def example_df_def base_station_def)

lemma ex_dist_cases:
  assumes "Latitude r = 0" and "Longitude r = 0 \<or> Longitude r = 180"
    and "lon = 0 \<or> lon = 180"
  shows "dist_m r 0 lon = 0 \<or> dist_m r 0 lon = EARTH_R * pi"
  using assms
  by (auto simp: dist_m_def hav_a_def math_radians_def math_atan2_def)

lemma ex_no_underflow:
  assumes "r \<in> set example_df" and "r' \<in> set example_df"
  shows "\<not> cube_underflows (dist_m r (Latitude r') (Longitude r'))"
proof -
  have c: "Latitude x = 0 \<and> (Longitude x = 0 \<or> Longitude x = 180)" if "x \<in> set example_df" for x
    using that
    by (auto simp: example_df_def base_station_def ue_direct_def ue_relayed_a_def
        ue_relayed_b_def ue_via_bs_id_def)
  from c [OF assms(1)] c [OF assms(2)]
  have "dist_m r (Latitude r') (Longitude r') = 0 \<or>
        dist_m r (Latitude r') (Longitude r') = EARTH_R * pi"
    using ex_dist_cases [of r "Longitude r'"] by auto
  moreover have "1 \<le> EARTH_R * pi"
  proof -
    have "(1::real) \<le> 6371000 * 2" by simp
    also have "\<dots> \<le> 6371000 * pi" using pi_ge_two by simp
    finally show ?thesis by (simp add: EARTH_R_def)
  qed
  ultimately show ?thesis using no_underflow_zero no_underflow_ge_one by auto
qed

lemma ex_members:
  "base_station \<in> set example_df" "ue_direct \<in> set example_df" "ue_relayed_a \<in> set example_df"
  "ue_relayed_b \<in> set example_df" "ue_via_bs_id \<in> set example_df"
  "set (load_ues example_df) \<subseteq> set example_df"
  by (simp_all add: example_df_def load_ues_def)

lemma ex_d2d_direct:
  "\<exists>t'. d2d_step zero_draws example_df base_station 3700000000 200000000 1 ue_direct initial_state
          = Inr t'"
proof -
  have "resolve_parent example_df base_station ue_direct = Inr base_station"
    by (simp add: resolve_parent_def ue_direct_def)
  then show ?thesis
    using ex_no_underflow [OF ex_members(2) ex_members(1)] by (simp add: d2d_step_eq ex_noise)
qed

lemma ex_d2d_via_bs_id:
  "\<exists>s'. d2d_step zero_draws example_df base_station 3700000000 200000000 1 ue_via_bs_id initial_state
          = Inr s'"
proof -
  have "resolve_parent example_df base_station ue_via_bs_id = Inr base_station"
    using ex_lookup_bs by (simp add: resolve_parent_def ue_via_bs_id_def base_station_def)
  then show ?thesis
    using ex_no_underflow [OF ex_members(5) ex_members(1)] by (simp add: d2d_step_eq ex_noise)
qed

lemma ex_band: "(''n77'', band_n77) \<in> set NR_BANDS"
  by (simp add: NR_BANDS_def band_n77_def)

lemma ex_resolvable:
  "ue \<in> set (load_ues example_df) \<Longrightarrow> Parent_ID ue = Some p \<Longrightarrow> p \<in> ID ` set example_df"
  unfolding ex_load_ues
  by (auto simp: example_df_def base_station_def ue_direct_def ue_relayed_a_def
      ue_relayed_b_def ue_via_bs_id_def)

lemma ex_noise_bands:
  assumes "(tag, bnd) \<in> set NR_BANDS"
  shows "noise (band_bw bnd) (zero_draws j) \<noteq> 0" and "noise (band_bw bnd) (unit_draws j) \<noteq> 0"
  using assms ex_noise by (auto simp: NR_BANDS_def)

lemma ex_accumulate:
  assumes "(tag, bnd) \<in> set NR_BANDS"
  shows "\<exists>s. accumulate_band sorted_list_of_set zero_draws example_df base_station
                (load_ues example_df) bnd k = Inr s"
    and "\<exists>s. accumulate_band sorted_list_of_set unit_draws example_df base_station
                (load_ues example_df) bnd k = Inr s"
proof -
  have fc: "band_fc bnd \<noteq> 0" using nr_bands_ok [OF assms] by simp
  have it: "set (sorted_list_of_set (relay_ids base_station (load_ues example_df)))
              \<subseteq> relay_ids base_station (load_ues example_df)"
    by (simp add: relay_ids_finite)
  show "\<exists>s. accumulate_band sorted_list_of_set zero_draws example_df base_station
                (load_ues example_df) bnd k = Inr s"
    using fc ex_noise_bands(1) [OF assms] ex_resolvable it ex_members(6) ex_members(1)
      ex_no_underflow
    by (intro accumulate_band_total) blast+
  show "\<exists>s. accumulate_band sorted_list_of_set unit_draws example_df base_station
                (load_ues example_df) bnd k = Inr s"
    using fc ex_noise_bands(2) [OF assms] ex_resolvable it ex_members(6) ex_members(1)
      ex_no_underflow
    by (intro accumulate_band_total) blast+
qed

lemma ex_steps:
  "\<exists>s'. baseline_step zero_draws base_station (band_fc band_n77) (band_bw band_n77) 1 ue_direct
           initial_state = Inr s'"
  "\<exists>s'. d2d_step zero_draws example_df base_station (band_fc band_n77) (band_bw band_n77) 1
           ue_relayed_a initial_state = Inr s'"
  "\<exists>s'. relay_step zero_draws example_df base_station (band_fc band_n77) (band_bw band_n77) 1 1
           initial_state = Inr s'"
proof -
  have fc: "band_fc band_n77 \<noteq> 0" and nz: "noise (band_bw band_n77) (zero_draws j) \<noteq> 0" for j
    using ex_noise by (simp_all add: band_n77_def)
  have l: "lookup_id example_df 1 = Inr ue_direct"
    by (simp add: lookup_id_def example_df_def base_station_def ue_direct_def)
  have p: "resolve_parent example_df base_station ue_relayed_a = Inr ue_direct"
    using l by (simp add: resolve_parent_def ue_relayed_a_def)
  show "\<exists>s'. baseline_step zero_draws base_station (band_fc band_n77) (band_bw band_n77) 1 ue_direct
           initial_state = Inr s'"
    using ex_no_underflow [OF ex_members(2) ex_members(1)]
    by (simp add: baseline_step_eq [OF fc] nz)
  show "\<exists>s'. d2d_step zero_draws example_df base_station (band_fc band_n77) (band_bw band_n77) 1
           ue_relayed_a initial_state = Inr s'"
    using ex_no_underflow [OF ex_members(3) ex_members(2)]
    by (simp add: d2d_step_eq [OF fc] nz p)
  show "\<exists>s'. relay_step zero_draws example_df base_station (band_fc band_n77) (band_bw band_n77) 1 1
           initial_state = Inr s'"
    using ex_no_underflow [OF ex_members(2) ex_members(1)]
    by (simp add: relay_step_eq [OF fc] nz l)
qed

lemma ex_simulate:
  "\<exists>rows. simulate sorted_list_of_set zero_draws example_df = Inr rows"
  "\<exists>rows. simulate sorted_list_of_set unit_draws example_df = Inr rows"
proof -
  have far: "ue_direct \<in> set (load_ues example_df)" "bs_dist base_station ue_direct \<noteq> 0"
    by (simp_all add: ex_load_ues ex_dist EARTH_R_def)
  have b: "\<exists>row k'. simulate_band sorted_list_of_set z example_df base_station
             (load_ues example_df) tag bnd k = Inr (row, k')"
    if "(tag, bnd) \<in> set NR_BANDS" "z = zero_draws \<or> z = unit_draws" for tag bnd k z
  proof -
    from that(2) ex_accumulate [OF that(1), of k] obtain s where
      "accumulate_band sorted_list_of_set z example_df base_station (load_ues example_df) bnd k
         = Inr s" by blast
    with nr_bands_ok [OF that(1)] far show ?thesis
      by (intro simulate_band_total) auto
  qed
  show "\<exists>rows. simulate sorted_list_of_set zero_draws example_df = Inr rows"
    unfolding simulate_def ex_load_bs
    by (simp add: ebind_def Let_def del: simulate_bands.simps) (rule simulate_bands_total, rule b, auto)
  show "\<exists>rows. simulate sorted_list_of_set unit_draws example_df = Inr rows"
    unfolding simulate_def ex_load_bs
    by (simp add: ebind_def Let_def del: simulate_bands.simps) (rule simulate_bands_total, rule b, auto)
qed

lemma ex_distinct: "distinct (map ID example_df)"
  by (simp add: example_df_def base_station_def ue_direct_def ue_relayed_a_def ue_relayed_b_def
      ue_via_bs_id_def)

text \<open>
  With more noise in every draw, the D2D rate sum of the small topology is smaller: the
  link from UE 2 to its parent at the same coordinates is above the floor.
\<close>

lemma ex_noise_order:
  "0 < \<bar>noise (band_bw band_n77) (zero_draws i)\<bar>"
  "\<bar>noise (band_bw band_n77) (zero_draws i)\<bar> \<le> \<bar>noise (band_bw band_n77) (unit_draws j)\<bar>"
  by (simp_all add: noise_def band_n77_def zero_draws_def unit_draws_def BOLTZ_def TEMP_K_def)

lemma ex_short_link:
  "link_rate 1 0 (band_fc band_n77) PARENT_RX_GAIN (band_bw band_n77) (unit_draws j)
     < link_rate 1 0 (band_fc band_n77) PARENT_RX_GAIN (band_bw band_n77) (zero_draws i)"
proof -
  define K :: real where "K = (if (0::real) = 0 then 1 / 10 else 0) ^ 3 / (C_LIGHT / 3700000000) ^ 2"
  define A :: real where "A = 1 * UE_TX_GAIN * PARENT_RX_GAIN / K"
  define n0 :: real where "n0 = \<bar>noise 200000000 0\<bar>"
  define n1 :: real where "n1 = \<bar>noise 200000000 1\<bar>"
  have g: "1 \<le> PARENT_RX_GAIN"
    by (simp add: PARENT_RX_GAIN_def PARENT_RX_GAIN_dBi_def ge_one_powr_ge_zero)
  have K: "0 < K" "K \<le> 1"
    by (simp_all add: K_def C_LIGHT_def power2_eq_square power3_eq_cube)
  have "1 \<le> PARENT_RX_GAIN / K"
    using g K by (simp add: field_simps)
  then have A: "1 \<le> A"
    by (simp add: A_def UE_TX_GAIN_def UE_TX_GAIN_dBi_def)
  have n: "0 < n0" "n0 < n1" "n1 < 1"
    by (simp_all add: n0_def n1_def noise_def BOLTZ_def TEMP_K_def)
  have s1: "1 / 100 < A / n1"
  proof -
    have "1 / 100 < A" using A by simp
    also have "A \<le> A / n1" using n A by (simp add: field_simps)
    finally show ?thesis .
  qed
  have s01: "A / n1 < A / n0"
    using n A by (intro divide_strict_left_mono) simp_all
  have p: "0 < 1 + A / n1" "0 < 1 + A / n0"
    using s1 s01 by linarith+
  have l: "log 2 (1 + A / n1) < log 2 (1 + A / n0)"
    using s01 p by (subst log_less_cancel_iff) simp_all
  have "1 / 100 < A / n0" using s1 s01 by (rule less_trans)
  with s1 have m: "max (A / n1) (1 / 100) = A / n1" "max (A / n0) (1 / 100) = A / n0"
    by (simp_all only: max_def not_le [symmetric] if_False)
  have e1: "link_rate 1 0 (band_fc band_n77) PARENT_RX_GAIN (band_bw band_n77) (unit_draws j)
      = MIMO_STREAMS * (200000000 * log 2 (1 + max (A / n1) (1 / 100)))"
    unfolding link_rate_def snr_val_def A_def K_def n1_def band_n77_def unit_draws_def
    by (simp only: band.simps)
  have e0: "link_rate 1 0 (band_fc band_n77) PARENT_RX_GAIN (band_bw band_n77) (zero_draws i)
      = MIMO_STREAMS * (200000000 * log 2 (1 + max (A / n0) (1 / 100)))"
    unfolding link_rate_def snr_val_def A_def K_def n0_def band_n77_def zero_draws_def
    by (simp only: band.simps)
  show ?thesis
    unfolding e0 e1 m using l by (simp add: MIMO_STREAMS_def)
qed

lemma ex_up_relayed_a:
  "up_dist example_df base_station ue_relayed_a = 0"
  "up_gain example_df base_station ue_relayed_a = PARENT_RX_GAIN"
proof -
  have l: "resolve_parent example_df base_station ue_relayed_a = Inr ue_direct"
    by (simp add: resolve_parent_def lookup_id_def example_df_def base_station_def ue_direct_def
        ue_relayed_a_def)
  show "up_dist example_df base_station ue_relayed_a = 0"
    unfolding up_dist_def l
    by (simp add: dist_m_def hav_a_def ue_direct_def ue_relayed_a_def
        math_radians_def math_atan2_def)
  show "up_gain example_df base_station ue_relayed_a = PARENT_RX_GAIN"
    unfolding up_gain_def l
    by (simp add: rx_gain_def ue_direct_def base_station_def)
qed

lemma ex_rate_differs:
  assumes s: "accumulate_band sorted_list_of_set zero_draws example_df base_station
                (load_ues example_df) band_n77 0 = Inr s"
    and s': "accumulate_band sorted_list_of_set unit_draws example_df base_station
                (load_ues example_df) band_n77 0 = Inr s'"
  shows "rate_d2d s' < rate_d2d s"
proof -
  define ues where "ues = load_ues example_df"
  define hops where "hops = sorted_list_of_set (relay_ids base_station ues)"
  define pt where "pt = dbm_to_w (band_eirp_dbm band_n77)"
  have fc: "band_fc band_n77 \<noteq> 0" and bw: "0 \<le> band_bw band_n77"
    by (simp_all add: band_n77_def)
  have pt: "pt = 1" by (simp add: pt_def dbm_to_w_def band_n77_def)
  have ues: "length ues = 4" "ues ! 1 = ue_relayed_a"
    by (simp_all add: ues_def ex_load_ues)
  note r = accumulate_band_result(4) [OF fc s, folded ues_def, folded hops_def pt_def]
  note r' = accumulate_band_result(4) [OF fc s', folded ues_def, folded hops_def pt_def]
  have up: "link_rate pt (up_dist example_df base_station (ues ! i)) (band_fc band_n77)
              (up_gain example_df base_station (ues ! i)) (band_bw band_n77) (unit_draws a)
            \<le> link_rate pt (up_dist example_df base_station (ues ! i)) (band_fc band_n77)
              (up_gain example_df base_station (ues ! i)) (band_bw band_n77) (zero_draws b)"
    for i a b
    by (intro link_rate_antimono ex_noise_order up_gain_nonneg up_dist_nonneg bw) (simp add: pt)
  have hop: "link_rate pt (hop_dist example_df base_station (hops ! j)) (band_fc band_n77)
              BS_RX_GAIN (band_bw band_n77) (unit_draws a)
            \<le> link_rate pt (hop_dist example_df base_station (hops ! j)) (band_fc band_n77)
              BS_RX_GAIN (band_bw band_n77) (zero_draws b)"
    for j a b
    by (intro link_rate_antimono ex_noise_order hop_dist_nonneg bw)
       (simp_all add: pt BS_RX_GAIN_def)
  have strict: "link_rate pt (up_dist example_df base_station (ues ! 1)) (band_fc band_n77)
              (up_gain example_df base_station (ues ! 1)) (band_bw band_n77) (unit_draws a)
            < link_rate pt (up_dist example_df base_station (ues ! 1)) (band_fc band_n77)
              (up_gain example_df base_station (ues ! 1)) (band_bw band_n77) (zero_draws b)"
    for a b
    unfolding ues(2) ex_up_relayed_a pt by (rule ex_short_link)
  have "(\<Sum>i<length ues. link_rate pt (up_dist example_df base_station (ues ! i)) (band_fc band_n77)
            (up_gain example_df base_station (ues ! i)) (band_bw band_n77)
            (unit_draws (0 + length ues + i)))
        < (\<Sum>i<length ues. link_rate pt (up_dist example_df base_station (ues ! i)) (band_fc band_n77)
            (up_gain example_df base_station (ues ! i)) (band_bw band_n77)
            (zero_draws (0 + length ues + i)))"
  proof (rule sum_strict_mono_ex1)
    show "finite {..<length ues}" by simp
    show "\<forall>i\<in>{..<length ues}.
        link_rate pt (up_dist example_df base_station (ues ! i)) (band_fc band_n77)
            (up_gain example_df base_station (ues ! i)) (band_bw band_n77)
            (unit_draws (0 + length ues + i))
        \<le> link_rate pt (up_dist example_df base_station (ues ! i)) (band_fc band_n77)
            (up_gain example_df base_station (ues ! i)) (band_bw band_n77)
            (zero_draws (0 + length ues + i))"
      using up by blast
    have "(1::nat) \<in> {..<length ues}" by (simp add: ues(1))
    then show "\<exists>i\<in>{..<length ues}.
        link_rate pt (up_dist example_df base_station (ues ! i)) (band_fc band_n77)
            (up_gain example_df base_station (ues ! i)) (band_bw band_n77)
            (unit_draws (0 + length ues + i))
        < link_rate pt (up_dist example_df base_station (ues ! i)) (band_fc band_n77)
            (up_gain example_df base_station (ues ! i)) (band_bw band_n77)
            (zero_draws (0 + length ues + i))"
      using strict by blast
  qed
  moreover have "(\<Sum>j<length hops. link_rate pt (hop_dist example_df base_station (hops ! j))
            (band_fc band_n77) BS_RX_GAIN (band_bw band_n77) (unit_draws (0 + 2 * length ues + j)))
        \<le> (\<Sum>j<length hops. link_rate pt (hop_dist example_df base_station (hops ! j))
            (band_fc band_n77) BS_RX_GAIN (band_bw band_n77) (zero_draws (0 + 2 * length ues + j)))"
    by (intro sum_mono hop)
  ultimately show ?thesis unfolding r r' by (rule add_less_le_mono)
qed

text \<open>
  The guard of \<open>snr_rayleigh\<close>: distance 0 is computed as 0.1 m, whose cube does not
  underflow; whenever the cube of the distance does not underflow, the path loss is
  returned and is not 0.
\<close>

lemma zero_distance_guard:
  assumes "fc \<noteq> 0"
  shows "snr_rayleigh pt 0 fc g_tx g_rx bw g = snr_rayleigh pt (1 / 10) fc g_tx g_rx bw g"
    and "\<not> cube_underflows 0"
    and "\<not> cube_underflows d \<Longrightarrow>
         \<exists>path_loss. rayleigh_path_loss fc (if d = 0 then 1 / 10 else d) = Inr path_loss \<and>
            path_loss \<noteq> 0 \<and>
            snr_rayleigh pt d fc g_tx g_rx bw g
              = py_div (pt * g_tx * g_rx / path_loss) \<bar>noise bw g\<bar>"
proof -
  show "snr_rayleigh pt 0 fc g_tx g_rx bw g = snr_rayleigh pt (1 / 10) fc g_tx g_rx bw g"
    by (simp add: snr_rayleigh_def)
  show "\<not> cube_underflows 0" by (rule no_underflow_zero)
  assume nu: "\<not> cube_underflows d"
  define d' :: real where "d' = (if d = 0 then 1 / 10 else d)"
  have d': "d' \<noteq> 0" by (simp add: d'_def)
  from nu have "float_pow d' 3 \<noteq> 0" by (simp add: cube_underflows_def d'_def PATH_EXP_def)
  then have f: "float_pow d' 3 = d' ^ 3" by (rule float_pow_eq)
  have pl: "rayleigh_path_loss fc d' = Inr (d' ^ 3 / (C_LIGHT / fc) ^ 2)"
    using assms by (simp add: path_loss_eq f)
  have nz: "d' ^ 3 / (C_LIGHT / fc) ^ 2 \<noteq> 0"
    using assms d' by (rule path_loss_nonzero)
  have "snr_rayleigh pt d fc g_tx g_rx bw g =
          ebind (rayleigh_path_loss fc d') (\<lambda>path_loss.
          ebind (py_div (pt * g_tx * g_rx) path_loss) (\<lambda>prx. py_div prx \<bar>noise bw g\<bar>))"
    by (simp add: snr_rayleigh_def d'_def)
  also have "\<dots> = py_div (pt * g_tx * g_rx / (d' ^ 3 / (C_LIGHT / fc) ^ 2)) \<bar>noise bw g\<bar>"
    using nz by (simp add: pl ebind_def py_div_def)
  finally have "snr_rayleigh pt d fc g_tx g_rx bw g
      = py_div (pt * g_tx * g_rx / (d' ^ 3 / (C_LIGHT / fc) ^ 2)) \<bar>noise bw g\<bar>" .
  with pl nz show "\<exists>path_loss. rayleigh_path_loss fc (if d = 0 then 1 / 10 else d) = Inr path_loss \<and>
      path_loss \<noteq> 0 \<and>
      snr_rayleigh pt d fc g_tx g_rx bw g = py_div (pt * g_tx * g_rx / path_loss) \<bar>noise bw g\<bar>"
    unfolding d'_def by blast
qed

text \<open>The UE next to the base station: its distance, and the first loop body on it.\<close>

lemma dist_small:
  assumes a: "hav_a row lat lon = (sin x) ^ 2" and x: "0 < x" "x < pi / 2"
  shows "dist_m row lat lon = EARTH_R * 2 * x"
proof -
  have s: "0 < sin x" using x by (intro sin_gt_zero) simp_all
  have c: "0 < cos x" using x by (intro cos_gt_zero_pi) simp_all
  have "1 - (sin x) ^ 2 = (cos x) ^ 2" by (simp add: cos_squared_eq)
  then have "sqrt (1 - hav_a row lat lon) = cos x" using c by (simp add: a)
  moreover have "sqrt (hav_a row lat lon) = sin x" using s by (simp add: a)
  moreover have "arctan (sin x / cos x) = x"
    using x arctan_tan [of x] by (simp add: tan_def)
  ultimately show ?thesis using c by (simp add: dist_m_def math_atan2_def)
qed

lemma near_dist:
  "bs_dist base_station ue_near_bs = EARTH_R * 2 * (pi / (90 * 10 ^ 160))"
  "bs_dist base_station ue_near_bs \<noteq> 0"
  "cube_underflows (bs_dist base_station ue_near_bs)"
proof -
  define x :: real where "x = pi / (90 * 10 ^ 160)"
  have x: "0 < x" "x < pi / 2"
  proof -
    show "0 < x" by (simp add: x_def)
    have "pi / (90 * 10 ^ 160) < pi / 2"
      by (intro divide_strict_left_mono) simp_all
    then show "x < pi / 2" by (simp add: x_def)
  qed
  have t1: "math_radians (Latitude base_station - Latitude ue_near_bs) / 2 = - x"
    by (simp add: math_radians_def x_def ue_near_bs_def base_station_def)
  have t2: "math_radians (Longitude base_station - Longitude ue_near_bs) / 2 = 0"
    by (simp add: math_radians_def ue_near_bs_def base_station_def)
  have "hav_a ue_near_bs (Latitude base_station) (Longitude base_station) = (sin x) ^ 2"
    unfolding hav_a_def t1 t2 by simp
  from dist_small [OF this x]
  show d: "bs_dist base_station ue_near_bs = EARTH_R * 2 * (pi / (90 * 10 ^ 160))"
    by (simp add: bs_dist_def x_def)
  show nz: "bs_dist base_station ue_near_bs \<noteq> 0"
    by (simp add: d EARTH_R_def)
  have "bs_dist base_station ue_near_bs = (6371000 * 2 / (90 * 10 ^ 160)) * pi"
    by (simp add: d EARTH_R_def)
  also have "\<dots> \<le> (6371000 * 2 / (90 * 10 ^ 160)) * 4"
    using pi_less_4 by (intro mult_left_mono) simp_all
  also have "\<dots> \<le> 1 / 10 ^ 154" by (simp add: field_simps)
  finally have le: "bs_dist base_station ue_near_bs \<le> 1 / 10 ^ 154" .
  have "(bs_dist base_station ue_near_bs) ^ 3 \<le> (1 / 10 ^ 154) ^ 3"
    using le bs_dist_nonneg by (rule power_mono)
  also have "\<dots> \<le> 1 / 2 ^ 1075" by (simp add: field_simps)
  finally have "\<bar>(bs_dist base_station ue_near_bs) ^ 3\<bar> \<le> 1 / 2 ^ 1075"
    using bs_dist_nonneg [of base_station ue_near_bs] by simp
  with nz show "cube_underflows (bs_dist base_station ue_near_bs)"
    by (simp add: cube_underflows_iff)
qed

lemma near_load: "load_bs near_df = Inr base_station" "load_ues near_df = [ue_near_bs]"
  by (simp_all add: load_bs_def load_ues_def near_df_def base_station_def ue_near_bs_def)

lemma near_baseline_step:
  "fc \<noteq> 0 \<Longrightarrow> baseline_step z base_station fc bw pt ue_near_bs s = Inl ZeroDivisionError"
  using near_dist(3) by (simp add: baseline_step_eq bs_dist_def)

section \<open>Claims\<close>

text \<open>
  C1. After the three loops of a band, \<open>parents\<close> is the set of the distinct relay
  identifiers (the parent identifiers other than the base station's), and the D2D sums
  are the per-UE terms plus one power-proxy term and one capacity term (with one noise
  draw) for each element of that set, however many UEs name the same relay.
\<close>

theorem one_hop_per_relay:
  assumes band: "(tag, bnd) \<in> set NR_BANDS"
    and run: "accumulate_band iter z df bs ues bnd k = Inr s"
    and enum: "enumerates iter (relay_ids bs ues)"
  shows "parents s = relay_ids bs ues \<and>
         power_d2d s = sum_list (map (\<lambda>ue. link_power (up_dist df bs ue)) ues)
           + (\<Sum>p \<in> relay_ids bs ues. link_power (hop_dist df bs p)) \<and>
         rate_d2d s =
           (\<Sum>i<length ues. link_rate (dbm_to_w (band_eirp_dbm bnd)) (up_dist df bs (ues ! i))
                 (band_fc bnd) (up_gain df bs (ues ! i)) (band_bw bnd) (z (k + length ues + i)))
           + (\<Sum>j<card (relay_ids bs ues).
                 link_rate (dbm_to_w (band_eirp_dbm bnd)) (hop_dist df bs (iter (relay_ids bs ues) ! j))
                 (band_fc bnd) BS_RX_GAIN (band_bw bnd) (z (k + 2 * length ues + j))) \<and>
         draws s = k + 2 * length ues + card (relay_ids bs ues)"
proof -
  have fc: "band_fc bnd \<noteq> 0" using nr_bands_ok [OF band] by simp
  note r = accumulate_band_result [OF fc run]
  note h = hop_power_sum [OF enum]
  show ?thesis
    using r(3) r(4) r(5) r(6) by (simp add: h)
qed

theorem one_hop_per_relay_witness:
  "(''n77'', band_n77) \<in> set NR_BANDS \<and>
   enumerates sorted_list_of_set (relay_ids base_station (load_ues example_df)) \<and>
   Parent_ID ue_relayed_a = Some 1 \<and> Parent_ID ue_relayed_b = Some 1 \<and>
   (\<exists>s. accumulate_band sorted_list_of_set zero_draws example_df base_station
           (load_ues example_df) band_n77 0 = Inr s \<and>
        parents s = {1} \<and> draws s = 9)"
proof -
  obtain s where run: "accumulate_band sorted_list_of_set zero_draws example_df base_station
           (load_ues example_df) band_n77 0 = Inr s"
    using ex_accumulate(1) [OF ex_band] by blast
  from one_hop_per_relay [OF ex_band run enumerates_sorted]
  have "parents s = {1}" and "draws s = 9"
    by (simp_all add: ex_relay) (simp add: ex_load_ues)
  with run ex_band enumerates_sorted show ?thesis
    by (auto simp: ue_relayed_a_def ue_relayed_b_def)
qed

text \<open>
  C2. With a base-station row and no UE rows, all sums of a band are 0 and the first
  percentage division raises \<open>ZeroDivisionError\<close>; nothing catches it, so the run ends
  with that exception and yields no result, neither infinite nor undefined.
\<close>

theorem no_ue_rows_raise:
  assumes "load_bs df = Inr bs" and "load_ues df = []" and "iter {} = []"
  shows "accumulate_band iter z df bs (load_ues df) bnd k =
           Inr \<lparr>power_baseline = 0, power_d2d = 0, rate_baseline = 0, rate_d2d = 0,
                parents = {}, draws = k\<rparr> \<and>
         simulate iter z df = Inl ZeroDivisionError"
  using assms
  by (simp add: simulate_def ebind_def NR_BANDS_def simulate_band_def accumulate_band_def
      band_row_def py_div_def Let_def)

theorem no_ue_rows_raise_witness:
  "load_bs bs_only_df = Inr base_station \<and> load_ues bs_only_df = [] \<and>
   sorted_list_of_set ({}::int set) = [] \<and>
   accumulate_band sorted_list_of_set unit_draws bs_only_df base_station (load_ues bs_only_df)
       band_n77 0 =
     Inr \<lparr>power_baseline = 0, power_d2d = 0, rate_baseline = 0, rate_d2d = 0,
          parents = {}, draws = 0\<rparr> \<and>
   simulate sorted_list_of_set unit_draws bs_only_df = Inl ZeroDivisionError"
proof -
  have b: "load_bs bs_only_df = Inr base_station"
    by (simp add: load_bs_def bs_only_df_def base_station_def)
  have u: "load_ues bs_only_df = []"
    by (simp add: load_ues_def bs_only_df_def base_station_def)
  have i: "sorted_list_of_set ({}::int set) = []" by simp
  from no_ue_rows_raise [where iter = sorted_list_of_set and z = unit_draws and bnd = band_n77
      and k = 0, OF b u i] b u i
  show ?thesis by simp
qed

text \<open>
  The table that holds the base station only has no UE rows, and its run does not
  produce a result: it ends with \<open>ZeroDivisionError\<close>.
\<close>

theorem no_ue_rows_counterexample:
  "load_ues bs_only_df = [] \<and>
   simulate sorted_list_of_set zero_draws bs_only_df = Inl ZeroDivisionError"
  by (simp add: simulate_def load_bs_def load_ues_def bs_only_df_def base_station_def ebind_def
      NR_BANDS_def simulate_band_def accumulate_band_def band_row_def py_div_def Let_def)

text \<open>
  C3. For every predefined band and non-empty UE set, once the three loops have
  completed with sums \<open>s\<close>, the reported percentages are
  \<open>(1 - power_d2d / power_baseline) * 100\<close> and
  \<open>(rate_d2d - rate_baseline) / rate_baseline * 100\<close> of those sums; the only case
  without a row is a baseline power sum of 0, where the division raises.
\<close>

theorem band_percentages_eq:
  assumes band: "(tag, bnd) \<in> set NR_BANDS" and ne: "ues \<noteq> []"
    and acc: "accumulate_band iter z df bs ues bnd k = Inr s"
  shows "simulate_band iter z df bs ues tag bnd k =
           (if power_baseline s = 0 then Inl ZeroDivisionError
            else Inr (\<lparr>Band = tag,
                       Frequency_GHz = band_fc bnd / 10 ^ 9,
                       Baseline_Power = fmt_power (power_baseline s),
                       D2D_Power = fmt_power (power_d2d s),
                       Power_Savings = (1 - power_d2d s / power_baseline s) * 100,
                       Baseline_Rate = rate_baseline s / 10 ^ 9,
                       D2D_Rate = rate_d2d s / 10 ^ 9,
                       Sum_Rate_Gain = (rate_d2d s - rate_baseline s) / rate_baseline s * 100\<rparr>,
                      draws s))"
proof -
  have fc: "band_fc bnd \<noteq> 0" and bw: "0 < band_bw bnd" using nr_bands_ok [OF band] by simp_all
  have "0 < rate_baseline s" by (rule rate_baseline_pos [OF fc bw ne acc])
  then show ?thesis
    by (simp add: simulate_band_def acc ebind_def band_row_eq)
qed

theorem band_percentages_eq_witness:
  "(''n77'', band_n77) \<in> set NR_BANDS \<and> load_ues example_df \<noteq> [] \<and>
   (\<exists>s. accumulate_band sorted_list_of_set zero_draws example_df base_station
           (load_ues example_df) band_n77 0 = Inr s \<and>
        (\<exists>row. simulate_band sorted_list_of_set zero_draws example_df base_station
                  (load_ues example_df) ''n77'' band_n77 0 = Inr (row, draws s) \<and>
           Power_Savings row = (1 - power_d2d s / power_baseline s) * 100 \<and>
           Sum_Rate_Gain row = (rate_d2d s - rate_baseline s) / rate_baseline s * 100))"
proof -
  have ne: "load_ues example_df \<noteq> []" by (simp add: ex_load_ues)
  obtain s where acc: "accumulate_band sorted_list_of_set zero_draws example_df base_station
           (load_ues example_df) band_n77 0 = Inr s"
    using ex_accumulate(1) [OF ex_band] by blast
  have fc: "band_fc band_n77 \<noteq> 0" by (simp add: band_n77_def)
  have "ue_direct \<in> set (load_ues example_df)" "bs_dist base_station ue_direct \<noteq> 0"
    by (simp_all add: ex_load_ues ex_dist EARTH_R_def)
  then have "0 < power_baseline s" by (rule power_baseline_pos [OF fc _ _ acc])
  with band_percentages_eq [OF ex_band ne acc] acc ne ex_band show ?thesis by simp
qed

text \<open>
  C4. In each of the three loops the SNR is floored at 0.01 before \<open>capacity\<close> is
  called: for every predefined band, each execution of a loop body adds at least
  \<open>MIMO_STREAMS\<close> times the capacity at SNR 0.01, which is positive, to its rate sum;
  and the four sums of a band are non-negative for every topology.
\<close>

theorem floored_snr_nonneg:
  assumes band: "(tag, bnd) \<in> set NR_BANDS"
  shows "\<exists>c0. capacity (band_bw bnd) (1 / 100) = Inr c0 \<and> 0 < c0 \<and>
           (\<forall>ue s s'. baseline_step z bs (band_fc bnd) (band_bw bnd) pt ue s = Inr s' \<longrightarrow>
              MIMO_STREAMS * c0 \<le> rate_baseline s' - rate_baseline s) \<and>
           (\<forall>ue s s'. d2d_step z df bs (band_fc bnd) (band_bw bnd) pt ue s = Inr s' \<longrightarrow>
              MIMO_STREAMS * c0 \<le> rate_d2d s' - rate_d2d s) \<and>
           (\<forall>pid s s'. relay_step z df bs (band_fc bnd) (band_bw bnd) pt pid s = Inr s' \<longrightarrow>
              MIMO_STREAMS * c0 \<le> rate_d2d s' - rate_d2d s) \<and>
           (\<forall>s. accumulate_band iter z df bs ues bnd k = Inr s \<longrightarrow>
              0 \<le> power_baseline s \<and> 0 \<le> power_d2d s \<and> 0 \<le> rate_baseline s \<and> 0 \<le> rate_d2d s)"
proof -
  have fc: "band_fc bnd \<noteq> 0" and bw: "0 < band_bw bnd" using nr_bands_ok [OF band] by simp_all
  define c0 where "c0 = band_bw bnd * log 2 (1 + 1 / 100)"
  note fl = link_rate_floor [OF bw, folded c0_def]
  have c: "capacity (band_bw bnd) (1 / 100) = Inr c0" "0 < c0"
    using capacity_floor_value [OF bw] by (simp_all add: c0_def)
  have b: "MIMO_STREAMS * c0 \<le> rate_baseline s' - rate_baseline s"
    if "baseline_step z bs (band_fc bnd) (band_bw bnd) pt ue s = Inr s'" for ue s s'
    using that fl by (auto simp: baseline_step_eq [OF fc] split: if_splits)
  have d: "MIMO_STREAMS * c0 \<le> rate_d2d s' - rate_d2d s"
    if "d2d_step z df bs (band_fc bnd) (band_bw bnd) pt ue s = Inr s'" for ue s s'
    using d2d_step_acc(2) [OF fc that] fl by simp
  have r: "MIMO_STREAMS * c0 \<le> rate_d2d s' - rate_d2d s"
    if "relay_step z df bs (band_fc bnd) (band_bw bnd) pt pid s = Inr s'" for pid s s'
    using relay_step_acc(2) [OF fc that] fl by simp
  have a: "0 \<le> power_baseline s \<and> 0 \<le> power_d2d s \<and> 0 \<le> rate_baseline s \<and> 0 \<le> rate_d2d s"
    if "accumulate_band iter z df bs ues bnd k = Inr s" for s
    using accumulate_band_nonneg [OF fc bw that] by simp
  from c b d r a show ?thesis by blast
qed

theorem floored_snr_nonneg_witness:
  "(''n77'', band_n77) \<in> set NR_BANDS \<and>
   (\<exists>s'. baseline_step zero_draws base_station (band_fc band_n77) (band_bw band_n77) 1 ue_direct
            initial_state = Inr s' \<and> 0 < rate_baseline s' - rate_baseline initial_state) \<and>
   (\<exists>s'. d2d_step zero_draws example_df base_station (band_fc band_n77) (band_bw band_n77) 1
            ue_relayed_a initial_state = Inr s' \<and> 0 < rate_d2d s' - rate_d2d initial_state) \<and>
   (\<exists>s'. relay_step zero_draws example_df base_station (band_fc band_n77) (band_bw band_n77) 1 1
            initial_state = Inr s' \<and> 0 < rate_d2d s' - rate_d2d initial_state) \<and>
   (\<exists>s. accumulate_band sorted_list_of_set zero_draws example_df base_station
           (load_ues example_df) band_n77 0 = Inr s \<and>
        0 \<le> power_baseline s \<and> 0 \<le> power_d2d s \<and> 0 \<le> rate_baseline s \<and> 0 \<le> rate_d2d s)"
proof -
  from floored_snr_nonneg [OF ex_band, of zero_draws base_station 1 example_df
      sorted_list_of_set "load_ues example_df" 0]
  obtain c0 where c0: "0 < c0"
    and b: "\<And>ue s s'. baseline_step zero_draws base_station (band_fc band_n77) (band_bw band_n77) 1
              ue s = Inr s' \<Longrightarrow> MIMO_STREAMS * c0 \<le> rate_baseline s' - rate_baseline s"
    and d: "\<And>ue s s'. d2d_step zero_draws example_df base_station (band_fc band_n77)
              (band_bw band_n77) 1 ue s = Inr s' \<Longrightarrow> MIMO_STREAMS * c0 \<le> rate_d2d s' - rate_d2d s"
    and r: "\<And>pid s s'. relay_step zero_draws example_df base_station (band_fc band_n77)
              (band_bw band_n77) 1 pid s = Inr s' \<Longrightarrow> MIMO_STREAMS * c0 \<le> rate_d2d s' - rate_d2d s"
    and a: "\<And>s. accumulate_band sorted_list_of_set zero_draws example_df base_station
              (load_ues example_df) band_n77 0 = Inr s \<Longrightarrow>
              0 \<le> power_baseline s \<and> 0 \<le> power_d2d s \<and> 0 \<le> rate_baseline s \<and> 0 \<le> rate_d2d s"
    by blast
  have m: "0 < MIMO_STREAMS * c0" using c0 by (simp add: MIMO_STREAMS_def)
  obtain s1 where s1: "baseline_step zero_draws base_station (band_fc band_n77) (band_bw band_n77) 1
      ue_direct initial_state = Inr s1" using ex_steps(1) by blast
  obtain s2 where s2: "d2d_step zero_draws example_df base_station (band_fc band_n77)
      (band_bw band_n77) 1 ue_relayed_a initial_state = Inr s2" using ex_steps(2) by blast
  obtain s3 where s3: "relay_step zero_draws example_df base_station (band_fc band_n77)
      (band_bw band_n77) 1 1 initial_state = Inr s3" using ex_steps(3) by blast
  obtain s where s: "accumulate_band sorted_list_of_set zero_draws example_df base_station
      (load_ues example_df) band_n77 0 = Inr s" using ex_accumulate(1) [OF ex_band] by blast
  have "0 < rate_baseline s1 - rate_baseline initial_state" using b [OF s1] m by linarith
  moreover have "0 < rate_d2d s2 - rate_d2d initial_state" using d [OF s2] m by linarith
  moreover have "0 < rate_d2d s3 - rate_d2d initial_state" using r [OF s3] m by linarith
  ultimately show ?thesis using s1 s2 s3 s a [OF s] ex_band by blast
qed

text \<open>
  C5. For a UE without \<open>Parent ID\<close> the D2D pass takes the base station as parent:
  given the same noise draw, the body of the D2D loop adds to the D2D sums exactly what the
  body of the baseline loop adds to the baseline sums (the same exception, or the same
  rate term and the same power-proxy term, hence the same distance and the base-station
  receive gain), and it leaves \<open>parents\<close> unchanged.
\<close>

theorem direct_ue_same_link:
  assumes "Parent_ID ue = None" and "z' (draws t) = z (draws s)"
  shows "d2d_contribution t (d2d_step z' df bs fc bw pt ue t)
           = baseline_contribution s (baseline_step z bs fc bw pt ue s) \<and>
         (\<forall>t'. d2d_step z' df bs fc bw pt ue t = Inr t' \<longrightarrow> parents t' = parents t)"
proof
  show "d2d_contribution t (d2d_step z' df bs fc bw pt ue t)
           = baseline_contribution s (baseline_step z bs fc bw pt ue s)"
    using assms
    by (simp add: d2d_contribution_def baseline_contribution_def d2d_step_def baseline_step_def
        ebind_def Let_def split: sum.splits)
  show "\<forall>t'. d2d_step z' df bs fc bw pt ue t = Inr t' \<longrightarrow> parents t' = parents t"
    using assms(1) d2d_step_parents [of z' df bs fc bw pt ue t] by simp
qed

theorem direct_ue_same_link_witness:
  "Parent_ID ue_direct = None \<and> zero_draws (draws initial_state) = zero_draws (draws initial_state) \<and>
   d2d_contribution initial_state
       (d2d_step zero_draws example_df base_station 3700000000 200000000 1 ue_direct initial_state)
     = baseline_contribution initial_state
         (baseline_step zero_draws base_station 3700000000 200000000 1 ue_direct initial_state) \<and>
   (\<exists>t'. d2d_step zero_draws example_df base_station 3700000000 200000000 1 ue_direct initial_state
            = Inr t' \<and> parents t' = parents initial_state)"
proof -
  have h: "Parent_ID ue_direct = None" by (simp add: ue_direct_def)
  have e: "zero_draws (draws initial_state) = zero_draws (draws initial_state)" by simp
  from direct_ue_same_link [where ue = ue_direct and z' = zero_draws and z = zero_draws
      and t = initial_state and s = initial_state and df = example_df and bs = base_station
      and fc = 3700000000 and bw = 200000000 and pt = 1, OF h e]
    ex_d2d_direct h e
  show ?thesis by blast
qed

text \<open>
  C6. The property: a link distance of 0 is replaced by 0.1 m before the path loss
  \<open>distance^3 / (speed_of_light/frequency)^2\<close> is computed, so that the division by the
  path loss is never a division by zero, for any pair of points. The guard of
  \<open>snr_rayleigh\<close> is there and catches the distance 0, but it misses the distances
  next to it. For the UE at latitude 4e-160 degrees and the base station at (0, 0),
  \<open>haversine_m\<close> returns a distance that is not 0, so it is not replaced; its cube
  underflows, the path loss is \<open>0.0\<close>, and with a noise other than 0 the division of
  the received power by the path loss raises \<open>ZeroDivisionError\<close>, which ends the run.
\<close>

theorem tiny_distance_divides_by_zero:
  "haversine_m ue_near_bs (Latitude base_station) (Longitude base_station)
     = Inr (bs_dist base_station ue_near_bs) \<and>
   bs_dist base_station ue_near_bs \<noteq> 0 \<and>
   rayleigh_path_loss 3700000000 (bs_dist base_station ue_near_bs) = Inr 0 \<and>
   noise 200000000 (zero_draws 0) \<noteq> 0 \<and>
   snr_rayleigh (dbm_to_w 30) (bs_dist base_station ue_near_bs) 3700000000 UE_TX_GAIN BS_RX_GAIN
       200000000 (zero_draws 0) = Inl ZeroDivisionError \<and>
   simulate sorted_list_of_set zero_draws near_df = Inl ZeroDivisionError"
proof (intro conjI)
  show "haversine_m ue_near_bs (Latitude base_station) (Longitude base_station)
     = Inr (bs_dist base_station ue_near_bs)"
    by (simp add: haversine_m_eq bs_dist_def)
  show "bs_dist base_station ue_near_bs \<noteq> 0"
    by (rule near_dist(2))
  have "float_pow (bs_dist base_station ue_near_bs) 3 = 0"
    using near_dist(2,3) by (simp add: cube_underflows_def PATH_EXP_def)
  then show "rayleigh_path_loss 3700000000 (bs_dist base_station ue_near_bs) = Inr 0"
    by (simp add: path_loss_eq)
  show "noise 200000000 (zero_draws 0) \<noteq> 0"
    by (rule ex_noise(1))
  show "snr_rayleigh (dbm_to_w 30) (bs_dist base_station ue_near_bs) 3700000000 UE_TX_GAIN
       BS_RX_GAIN 200000000 (zero_draws 0) = Inl ZeroDivisionError"
    using near_dist(3) by (simp add: snr_rayleigh_eq)
  show "simulate sorted_list_of_set zero_draws near_df = Inl ZeroDivisionError"
    by (simp add: simulate_def near_load ebind_def NR_BANDS_def simulate_band_def
        accumulate_band_def Let_def near_baseline_step)
qed

text \<open>
  C7. The capacity \<open>bw * log2(1 + snr)\<close> is strictly increasing in the SNR for every
  fixed positive bandwidth (on the SNRs above \<open>-1\<close>, where \<open>math.log2\<close> is defined),
  and strictly increasing in the bandwidth for every fixed positive SNR.
\<close>

theorem capacity_monotone:
  "(0 < bw \<and> - 1 < s1 \<and> s1 < s2 \<longrightarrow>
      (\<exists>c1 c2. capacity bw s1 = Inr c1 \<and> capacity bw s2 = Inr c2 \<and> c1 < c2)) \<and>
   (0 < snr \<and> bw1 < bw2 \<longrightarrow>
      (\<exists>c1 c2. capacity bw1 snr = Inr c1 \<and> capacity bw2 snr = Inr c2 \<and> c1 < c2))"
proof (intro conjI impI)
  assume a: "0 < bw \<and> - 1 < s1 \<and> s1 < s2"
  then have "log 2 (1 + s1) < log 2 (1 + s2)" by simp
  with a have "bw * log 2 (1 + s1) < bw * log 2 (1 + s2)" by simp
  with a show "\<exists>c1 c2. capacity bw s1 = Inr c1 \<and> capacity bw s2 = Inr c2 \<and> c1 < c2"
    by (simp add: capacity_def math_log2_def ebind_def)
next
  assume a: "0 < snr \<and> bw1 < bw2"
  then have "0 < log 2 (1 + snr)" by simp
  with a have "bw1 * log 2 (1 + snr) < bw2 * log 2 (1 + snr)" by simp
  with a show "\<exists>c1 c2. capacity bw1 snr = Inr c1 \<and> capacity bw2 snr = Inr c2 \<and> c1 < c2"
    by (simp add: capacity_def math_log2_def ebind_def)
qed

theorem capacity_monotone_witness:
  "(\<exists>c1 c2. capacity 200000000 1 = Inr c1 \<and> capacity 200000000 3 = Inr c2 \<and> c1 < c2) \<and>
   (\<exists>c1 c2. capacity 200000000 1 = Inr c1 \<and> capacity 1600000000 1 = Inr c2 \<and> c1 < c2)"
  using capacity_monotone [of 200000000 1 3 1 200000000 1600000000] by simp

text \<open>
  C8. Every run that completes yields exactly three rows whose \<open>Band\<close> values are
  \<open>n77\<close>, \<open>n260\<close>, \<open>n261\<close>, in this order, whatever the topology.
\<close>

theorem output_bands:
  assumes "simulate iter z df = Inr rows"
  shows "map Band rows = [''n77'', ''n260'', ''n261'']"
proof -
  from assms obtain bs where
    r: "simulate_bands iter z df bs (load_ues df) NR_BANDS [] 0 = Inr rows"
    by (auto simp: simulate_def ebind_def Let_def split: sum.splits simp del: simulate_bands.simps)
  have "map Band rows = map Band ([]::result_row list) @ map (\<lambda>(tag, bnd). tag) NR_BANDS"
    by (rule simulate_bands_cols [where col = Band and c = "\<lambda>tag bnd. tag", OF _ r])
       (rule simulate_band_tag)
  then show ?thesis by (simp add: NR_BANDS_def)
qed

theorem output_bands_witness:
  "\<exists>rows. simulate sorted_list_of_set zero_draws example_df = Inr rows \<and>
          map Band rows = [''n77'', ''n260'', ''n261'']"
proof -
  obtain rows where r: "simulate sorted_list_of_set zero_draws example_df = Inr rows"
    using ex_simulate(1) by blast
  from output_bands [OF r] r show ?thesis by (intro exI conjI)
qed

text \<open>
  Not every topology has a completed run: for the table that holds the base station
  only, the run ends with an exception, and its outcome is not a table with the three
  band rows.
\<close>

theorem output_bands_counterexample:
  "map_sum id (map Band) (simulate sorted_list_of_set unit_draws bs_only_df)
     \<noteq> Inr [''n77'', ''n260'', ''n261'']"
  by (simp add: simulate_def load_bs_def load_ues_def bs_only_df_def base_station_def ebind_def
      NR_BANDS_def simulate_band_def accumulate_band_def band_row_def py_div_def Let_def)

text \<open>
  C9. The power-proxy sums of a band, and the columns \<open>Baseline Power\<close>,
  \<open>D2D Power\<close> and \<open>Power Savings (%)\<close> of the table, are the same in any two
  completed runs over the same input, whatever the noise draws (and whatever the order
  in which the set of relays is visited). The rate sums do depend on the draws: in the
  two runs of the witness the D2D rate sums differ.
\<close>

theorem power_independent_of_noise:
  assumes bs: "load_bs df = Inr bs"
    and enum: "enumerates iter (relay_ids bs (load_ues df))"
    and enum': "enumerates iter' (relay_ids bs (load_ues df))"
  shows "(\<forall>tag bnd k k' s s'. (tag, bnd) \<in> set NR_BANDS \<and>
            accumulate_band iter z df bs (load_ues df) bnd k = Inr s \<and>
            accumulate_band iter' z' df bs (load_ues df) bnd k' = Inr s' \<longrightarrow>
            power_baseline s = power_baseline s' \<and> power_d2d s = power_d2d s') \<and>
         (\<forall>rows rows'. simulate iter z df = Inr rows \<and> simulate iter' z' df = Inr rows' \<longrightarrow>
            map Baseline_Power rows = map Baseline_Power rows' \<and>
            map D2D_Power rows = map D2D_Power rows' \<and>
            map Power_Savings rows = map Power_Savings rows')"
proof (intro conjI allI impI)
  fix tag bnd k k' s s'
  assume a: "(tag, bnd) \<in> set NR_BANDS \<and>
            accumulate_band iter z df bs (load_ues df) bnd k = Inr s \<and>
            accumulate_band iter' z' df bs (load_ues df) bnd k' = Inr s'"
  then have fc: "band_fc bnd \<noteq> 0" using nr_bands_ok by blast
  from a have r: "accumulate_band iter z df bs (load_ues df) bnd k = Inr s"
    and r': "accumulate_band iter' z' df bs (load_ues df) bnd k' = Inr s'" by simp_all
  show "power_baseline s = power_baseline s'"
    using accumulate_power(1) [OF fc enum r] accumulate_power(1) [OF fc enum' r'] by simp
  show "power_d2d s = power_d2d s'"
    using accumulate_power(2) [OF fc enum r] accumulate_power(2) [OF fc enum' r'] by simp
next
  fix rows rows'
  assume a: "simulate iter z df = Inr rows \<and> simulate iter' z' df = Inr rows'"
  define ues where "ues = load_ues df"
  from a bs have r: "simulate_bands iter z df bs ues NR_BANDS [] 0 = Inr rows"
    and r': "simulate_bands iter' z' df bs ues NR_BANDS [] 0 = Inr rows'"
    by (simp_all add: simulate_def ebind_def Let_def ues_def del: simulate_bands.simps)
  have fc: "band_fc bnd \<noteq> 0" if "(tag, bnd) \<in> set NR_BANDS" for tag bnd
    using nr_bands_ok [OF that] by simp
  note e = enum [folded ues_def] and e' = enum' [folded ues_def]
  have "map Baseline_Power rows
          = map Baseline_Power ([]::result_row list) @ map (\<lambda>(tag, bnd). fmt_power (base_power bs ues)) NR_BANDS"
    by (rule simulate_bands_cols [where col = Baseline_Power and c = "\<lambda>tag bnd. fmt_power (base_power bs ues)", OF _ r])
       (rule simulate_band_cols(2) [OF fc e])
  moreover have "map Baseline_Power rows'
          = map Baseline_Power ([]::result_row list) @ map (\<lambda>(tag, bnd). fmt_power (base_power bs ues)) NR_BANDS"
    by (rule simulate_bands_cols [where col = Baseline_Power and c = "\<lambda>tag bnd. fmt_power (base_power bs ues)", OF _ r'])
       (rule simulate_band_cols(2) [OF fc e'])
  ultimately show "map Baseline_Power rows = map Baseline_Power rows'" by simp
  have "map D2D_Power rows
          = map D2D_Power ([]::result_row list) @ map (\<lambda>(tag, bnd). fmt_power (d2d_power_sum df bs ues)) NR_BANDS"
    by (rule simulate_bands_cols [where col = D2D_Power and c = "\<lambda>tag bnd. fmt_power (d2d_power_sum df bs ues)", OF _ r])
       (rule simulate_band_cols(3) [OF fc e])
  moreover have "map D2D_Power rows'
          = map D2D_Power ([]::result_row list) @ map (\<lambda>(tag, bnd). fmt_power (d2d_power_sum df bs ues)) NR_BANDS"
    by (rule simulate_bands_cols [where col = D2D_Power and c = "\<lambda>tag bnd. fmt_power (d2d_power_sum df bs ues)", OF _ r'])
       (rule simulate_band_cols(3) [OF fc e'])
  ultimately show "map D2D_Power rows = map D2D_Power rows'" by simp
  have "map Power_Savings rows
          = map Power_Savings ([]::result_row list) @
            map (\<lambda>(tag, bnd). (1 - d2d_power_sum df bs ues / base_power bs ues) * 100) NR_BANDS"
    by (rule simulate_bands_cols [where col = Power_Savings and c = "\<lambda>tag bnd. (1 - d2d_power_sum df bs ues / base_power bs ues) * 100", OF _ r])
       (rule simulate_band_cols(4) [OF fc e])
  moreover have "map Power_Savings rows'
          = map Power_Savings ([]::result_row list) @
            map (\<lambda>(tag, bnd). (1 - d2d_power_sum df bs ues / base_power bs ues) * 100) NR_BANDS"
    by (rule simulate_bands_cols [where col = Power_Savings and c = "\<lambda>tag bnd. (1 - d2d_power_sum df bs ues / base_power bs ues) * 100", OF _ r'])
       (rule simulate_band_cols(4) [OF fc e'])
  ultimately show "map Power_Savings rows = map Power_Savings rows'" by simp
qed

theorem power_independent_of_noise_witness:
  "load_bs example_df = Inr base_station \<and>
   enumerates sorted_list_of_set (relay_ids base_station (load_ues example_df)) \<and>
   (\<exists>s s'. accumulate_band sorted_list_of_set zero_draws example_df base_station
               (load_ues example_df) band_n77 0 = Inr s \<and>
            accumulate_band sorted_list_of_set unit_draws example_df base_station
               (load_ues example_df) band_n77 0 = Inr s' \<and>
            power_baseline s = power_baseline s' \<and> power_d2d s = power_d2d s' \<and>
            rate_d2d s' < rate_d2d s) \<and>
   (\<exists>rows rows'. simulate sorted_list_of_set zero_draws example_df = Inr rows \<and>
      simulate sorted_list_of_set unit_draws example_df = Inr rows' \<and>
      map Baseline_Power rows = map Baseline_Power rows' \<and>
      map D2D_Power rows = map D2D_Power rows' \<and>
      map Power_Savings rows = map Power_Savings rows')"
proof -
  note t = power_independent_of_noise [OF ex_load_bs enumerates_sorted enumerates_sorted,
      of zero_draws unit_draws]
  obtain s where s: "accumulate_band sorted_list_of_set zero_draws example_df base_station
               (load_ues example_df) band_n77 0 = Inr s"
    using ex_accumulate(1) [OF ex_band] by blast
  obtain s' where s': "accumulate_band sorted_list_of_set unit_draws example_df base_station
               (load_ues example_df) band_n77 0 = Inr s'"
    using ex_accumulate(2) [OF ex_band] by blast
  obtain rows where r: "simulate sorted_list_of_set zero_draws example_df = Inr rows"
    using ex_simulate(1) by blast
  obtain rows' where r': "simulate sorted_list_of_set unit_draws example_df = Inr rows'"
    using ex_simulate(2) by blast
  from t s s' ex_band have "power_baseline s = power_baseline s' \<and> power_d2d s = power_d2d s'"
    by blast
  moreover from t r r' have "map Baseline_Power rows = map Baseline_Power rows' \<and>
      map D2D_Power rows = map D2D_Power rows' \<and>
      map Power_Savings rows = map Power_Savings rows'" by blast
  moreover note ex_rate_differs [OF s s']
  ultimately show ?thesis using s s' r r' ex_load_bs enumerates_sorted by blast
qed

text \<open>
  C10. For a UE whose \<open>Parent ID\<close> is the identifier of the base station, the body of
  the D2D loop uses the base-station receive gain and never adds to \<open>parents\<close>, so
  the UE causes no relay-to-base-station hop; when the identifiers of the table are
  unique, so that the row found is the base station, the UE is treated exactly as the
  same UE without \<open>Parent ID\<close>.
\<close>

theorem parent_is_base_station_id:
  assumes "Parent_ID ue = Some (ID bs)"
  shows "d2d_step z df bs fc bw pt ue s =
           ebind (lookup_id df (ID bs)) (\<lambda>parent.
           ebind (haversine_m ue (Latitude parent) (Longitude parent)) (\<lambda>d_up.
           ebind (snr_rayleigh pt d_up fc UE_TX_GAIN BS_RX_GAIN bw (z (draws s))) (\<lambda>snr.
           ebind (capacity bw (max snr (1 / 100))) (\<lambda>c.
           Inr (s\<lparr>rate_d2d := rate_d2d s + MIMO_STREAMS * c,
                  power_d2d := power_d2d s + (d_up / 1000) ^ PATH_EXP,
                  draws := Suc (draws s)\<rparr>))))) \<and>
         (\<forall>s'. d2d_step z df bs fc bw pt ue s = Inr s' \<longrightarrow> parents s' = parents s) \<and>
         (load_bs df = Inr bs \<and> distinct (map ID df) \<longrightarrow>
            d2d_step z df bs fc bw pt ue s = d2d_step z df bs fc bw pt (ue\<lparr>Parent_ID := None\<rparr>) s)"
proof (intro conjI allI impI)
  have id: "ID parent = ID bs" if "lookup_id df (ID bs) = Inr parent" for parent
    using that by (rule lookup_id_ID)
  show "d2d_step z df bs fc bw pt ue s =
           ebind (lookup_id df (ID bs)) (\<lambda>parent.
           ebind (haversine_m ue (Latitude parent) (Longitude parent)) (\<lambda>d_up.
           ebind (snr_rayleigh pt d_up fc UE_TX_GAIN BS_RX_GAIN bw (z (draws s))) (\<lambda>snr.
           ebind (capacity bw (max snr (1 / 100))) (\<lambda>c.
           Inr (s\<lparr>rate_d2d := rate_d2d s + MIMO_STREAMS * c,
                  power_d2d := power_d2d s + (d_up / 1000) ^ PATH_EXP,
                  draws := Suc (draws s)\<rparr>)))))"
  proof (cases "lookup_id df (ID bs)")
    case (Inl e)
    with assms show ?thesis by (simp add: d2d_step_def ebind_def)
  next
    case (Inr parent)
    with assms id [OF Inr] show ?thesis
      by (simp add: d2d_step_def ebind_def Let_def split: sum.splits)
  qed
next
  fix s' assume "d2d_step z df bs fc bw pt ue s = Inr s'"
  from d2d_step_parents [OF this] assms show "parents s' = parents s" by auto
next
  assume a: "load_bs df = Inr bs \<and> distinct (map ID df)"
  then have "bs \<in> set df" by (simp add: load_bs_mem)
  with a have "lookup_id df (ID bs) = Inr bs" by (simp add: lookup_id_unique)
  with assms show "d2d_step z df bs fc bw pt ue s
      = d2d_step z df bs fc bw pt (ue\<lparr>Parent_ID := None\<rparr>) s"
    by (simp add: d2d_step_def haversine_m_def)
qed

theorem parent_is_base_station_id_witness:
  "Parent_ID ue_via_bs_id = Some (ID base_station) \<and>
   load_bs example_df = Inr base_station \<and> distinct (map ID example_df) \<and>
   (\<exists>s'. d2d_step zero_draws example_df base_station 3700000000 200000000 1 ue_via_bs_id initial_state
            = Inr s' \<and> parents s' = parents initial_state) \<and>
   d2d_step zero_draws example_df base_station 3700000000 200000000 1 ue_via_bs_id initial_state
     = d2d_step zero_draws example_df base_station 3700000000 200000000 1
         (ue_via_bs_id\<lparr>Parent_ID := None\<rparr>) initial_state"
proof -
  have h: "Parent_ID ue_via_bs_id = Some (ID base_station)"
    by (simp add: ue_via_bs_id_def base_station_def)
  from parent_is_base_station_id [OF h, of zero_draws example_df 3700000000 200000000 1 initial_state]
    ex_d2d_via_bs_id ex_load_bs ex_distinct h
  show ?thesis by blast
qed

end
